theory Spec2Isabelle
  imports Main "HOL-Library.AList"
begin

section \<open>Values\<close>

text \<open>
  A \<^verbatim>\<open>time.Time\<close>: the instant in nanoseconds and the optional monotonic clock
  reading that \<^verbatim>\<open>time.Now()\<close> attaches. The zero value is \<open>zeroTime\<close>.
\<close>

record Time =
  nanos :: int
  mono :: "nat option"

definition zeroTime :: Time where
  "zeroTime = \<lparr>nanos = 0, mono = None\<rparr>"

definition stripMono :: "Time \<Rightarrow> Time" where
  "stripMono t = t\<lparr>mono := None\<rparr>"

definition addMinutes :: "int \<Rightarrow> Time \<Rightarrow> Time" where
  "addMinutes m t =
     \<lparr>nanos = nanos t + m * 60000000000,
      mono = map_option (\<lambda>k. nat (int k + m * 60000000000)) (mono t)\<rparr>"

text \<open>
  Go errors. \<open>AppendError\<close> stands for the wrapping that \<^verbatim>\<open>utility.AppendError\<close>
  applies to an error that is not nil; \<open>appendError\<close> is the call itself.
\<close>

datatype error = Error string | AppendError error

definition appendError :: "error option \<Rightarrow> error option" where
  "appendError e = map_option AppendError e"

text \<open>
  The dynamic values held in an \<^verbatim>\<open>interface{}\<close>: nil, bool, string, \<^verbatim>\<open>[]string\<close>,
  \<^verbatim>\<open>[]interface{}\<close>, \<^verbatim>\<open>map[string]interface{}\<close>, \<^verbatim>\<open>time.Time\<close>, and \<open>GFunc\<close> for the
  kinds the JSON encoder rejects (functions, channels). A Go map is an association list;
  its order is one order in which the runtime may range over it. Strings are taken to be
  valid UTF-8. Numbers are left out of the embedding.
\<close>

datatype gval =
    GNil
  | GBool bool
  | GString string
  | GStrings "string list"
  | GSlice "gval list"
  | GMap "(string \<times> gval) list"
  | GTime Time
  | GFunc

text \<open>A JSON document, as \<^verbatim>\<open>encoding/json\<close> writes and reads it.\<close>

datatype json =
    JNull
  | JBool bool
  | JStr string
  | JArr "json list"
  | JObj "(string \<times> json) list"

text \<open>
  \<^verbatim>\<open>json.Encoder.Encode\<close> on a dynamic value: \<open>None\<close> is an encoding error. The text of
  a \<^verbatim>\<open>time.Time\<close> (RFC3339 with nanoseconds) is the parameter \<open>fmt\<close>.
\<close>

fun allSome :: "'a option list \<Rightarrow> 'a list option" where
  "allSome [] = Some []"
| "allSome (x # xs) =
     (case x of None \<Rightarrow> None
      | Some y \<Rightarrow> (case allSome xs of None \<Rightarrow> None | Some ys \<Rightarrow> Some (y # ys)))"

fun encode :: "(Time \<Rightarrow> string) \<Rightarrow> gval \<Rightarrow> json option" where
  "encode fmt GNil = Some JNull"
| "encode fmt (GBool b) = Some (JBool b)"
| "encode fmt (GString s) = Some (JStr s)"
| "encode fmt (GStrings ss) = Some (JArr (map JStr ss))"
| "encode fmt (GSlice vs) = map_option JArr (allSome (map (encode fmt) vs))"
| "encode fmt (GMap kvs) =
     map_option (\<lambda>js. JObj (zip (map fst kvs) js)) (allSome (map (\<lambda>kv. encode fmt (snd kv)) kvs))"
| "encode fmt (GTime t) = Some (JStr (fmt t))"
| "encode fmt GFunc = None"

text \<open>
  \<^verbatim>\<open>json.Decoder.Decode\<close> into an \<^verbatim>\<open>interface{}\<close>. Of the members of an object that
  repeat a key the last one stays (\<open>lastWins\<close>).
\<close>

definition lastWins :: "('k \<times> 'v) list \<Rightarrow> ('k \<times> 'v) list" where
  "lastWins kvs = foldl (\<lambda>m kv. AList.update (fst kv) (snd kv) m) [] kvs"

fun decode :: "json \<Rightarrow> gval" where
  "decode JNull = GNil"
| "decode (JBool b) = GBool b"
| "decode (JStr s) = GString s"
| "decode (JArr js) = GSlice (map decode js)"
| "decode (JObj kjs) = GMap (lastWins (map (\<lambda>kj. (fst kj, decode (snd kj))) kjs))"

section \<open>The session store\<close>

text \<open>
  \<^verbatim>\<open>Session\<close> of session.go; its field \<^verbatim>\<open>id\<close> is \<open>sid\<close> here. The locks are not part of
  the embedding: every operation runs alone.
\<close>

record Session =
  sid :: string
  userName :: string
  lastOp :: Time
  data :: "(string \<times> gval) list"

text \<open>What a file holds: text that is no JSON value, or a JSON value.\<close>

datatype fcontent = Garbage string | Doc json

text \<open>
  The process state. \<open>activeSessions\<close> maps an id to a pointer, an index into \<open>heap\<close>.
  \<open>clock\<close> is what \<^verbatim>\<open>time.Now()\<close> returns. \<open>rand k\<close> is the pair that the \<open>k\<close>-th call of
  \<^verbatim>\<open>utility.RandString(24)\<close> returns and \<open>rpos\<close> counts the calls made. \<open>files\<close> are the
  regular files by path, \<open>dirs\<close> the directories and \<open>denied\<close> the paths that cannot
  be opened for writing.
\<close>

record state =
  activeSessions :: "(string \<times> nat) list"
  heap :: "Session list"
  clock :: Time
  rand :: "nat \<Rightarrow> string \<times> error option"
  rpos :: nat
  files :: "(string \<times> fcontent) list"
  dirs :: "string list"
  denied :: "string list"

text \<open>
  The loop of \<^verbatim>\<open>newSession\<close> that draws ids until one is not in the store or the
  generator fails. It need not end: \<open>None\<close> is the run that draws taken ids for ever.
\<close>

partial_function (option) drawId ::
  "(string \<times> nat) list \<Rightarrow> (nat \<Rightarrow> string \<times> error option) \<Rightarrow> nat \<Rightarrow> (string \<times> error option \<times> nat) option"
where
  "drawId as rnd k =
     (case rnd k of
        (i, Some e) \<Rightarrow> Some (i, Some e, Suc k)
      | (i, None) \<Rightarrow>
          (if map_of as i = None then Some (i, None, Suc k) else drawId as rnd (Suc k)))"

definition newSession :: "string \<Rightarrow> state \<Rightarrow> ((nat option \<times> error option) \<times> state) option" where
  "newSession id0 st =
     (case (if id0 = [] then drawId (activeSessions st) (rand st) (rpos st)
            else Some (id0, None, rpos st)) of
        None \<Rightarrow> None
      | Some (i, err, k) \<Rightarrow>
          (let st1 = st\<lparr>rpos := k\<rparr> in
           if err \<noteq> None then Some ((None, appendError err), st1)
           else
             (let (s, st2) =
                    (case map_of (activeSessions st1) i of
                       Some p \<Rightarrow> (p, st1)
                     | None \<Rightarrow>
                         (length (heap st1),
                          st1\<lparr>heap := heap st1 @ [\<lparr>sid = i, userName = [], lastOp = zeroTime, data = []\<rparr>],
                              activeSessions := AList.update i (length (heap st1)) (activeSessions st1)\<rparr>))
              in Some ((Some s, None),
                       st2\<lparr>heap := (heap st2)[s := (heap st2 ! s)\<lparr>lastOp := clock st2\<rparr>]\<rparr>))))"

text \<open>The methods of \<^verbatim>\<open>*Session\<close>; \<open>s\<close> is the pointer.\<close>

definition User :: "nat \<Rightarrow> state \<Rightarrow> string" where
  "User s st = userName (heap st ! s)"

definition SetUser :: "nat \<Rightarrow> string \<Rightarrow> state \<Rightarrow> state" where
  "SetUser s usr st = st\<lparr>heap := (heap st)[s := (heap st ! s)\<lparr>userName := usr\<rparr>]\<rparr>"

definition Get :: "nat \<Rightarrow> string \<Rightarrow> state \<Rightarrow> gval \<times> state" where
  "Get s key st =
     (let st1 = st\<lparr>heap := (heap st)[s := (heap st ! s)\<lparr>lastOp := clock st\<rparr>]\<rparr> in
      (case map_of (data (heap st1 ! s)) key of None \<Rightarrow> GNil | Some v \<Rightarrow> v, st1))"

definition Set :: "nat \<Rightarrow> string \<Rightarrow> gval \<Rightarrow> state \<Rightarrow> state" where
  "Set s key v st =
     st\<lparr>heap := (heap st)[s := (heap st ! s)\<lparr>lastOp := clock st,
                                             data := AList.update key v (data (heap st ! s))\<rparr>]\<rparr>"

definition Delete :: "nat \<Rightarrow> state \<Rightarrow> state" where
  "Delete s st = st\<lparr>activeSessions := AList.delete (sid (heap st ! s)) (activeSessions st)\<rparr>"

datatype SameSite = SameSiteDefaultMode | SameSiteLaxMode | SameSiteStrictMode | SameSiteNoneMode

record Cookie =
  Name :: string
  Value :: string
  Secure :: bool
  Expires :: Time
  HttpOnly :: bool
  SameSite :: SameSite
  Path :: string

definition GetCookie :: "nat \<Rightarrow> state \<Rightarrow> Cookie" where
  "GetCookie s st =
     \<lparr>Name = ''sessionid'', Value = sid (heap st ! s), Secure = True,
      Expires = addMinutes 15 (clock st), HttpOnly = True,
      SameSite = SameSiteStrictMode, Path = ''/''\<rparr>"

section \<open>The response writer and the request\<close>

text \<open>
  An \<^verbatim>\<open>http.ResponseWriter\<close>: the header lines, the status once \<^verbatim>\<open>WriteHeader\<close> has
  been called, and what has been written to the body. A \<^verbatim>\<open>Set-Cookie\<close> line holds the
  cookie itself.
\<close>

datatype hval = HStr string | HCookie Cookie

datatype chunk = JsonBody json | Bytes string | File string

record ResponseWriter =
  wheader :: "(string \<times> hval) list"
  wstatus :: "nat option"
  wbody :: "chunk list"

definition HeaderSet :: "string \<Rightarrow> string \<Rightarrow> ResponseWriter \<Rightarrow> ResponseWriter" where
  "HeaderSet k v w = w\<lparr>wheader := filter (\<lambda>kv. fst kv \<noteq> k) (wheader w) @ [(k, HStr v)]\<rparr>"

definition SetCookie :: "Cookie \<Rightarrow> ResponseWriter \<Rightarrow> ResponseWriter" where
  "SetCookie c w = w\<lparr>wheader := wheader w @ [(''Set-Cookie'', HCookie c)]\<rparr>"

definition WriteHeader :: "nat \<Rightarrow> ResponseWriter \<Rightarrow> ResponseWriter" where
  "WriteHeader code w = (if wstatus w = None then w\<lparr>wstatus := Some code\<rparr> else w)"

definition Write :: "chunk \<Rightarrow> ResponseWriter \<Rightarrow> ResponseWriter" where
  "Write c w = (let w1 = WriteHeader 200 w in w1\<lparr>wbody := wbody w1 @ [c]\<rparr>)"

text \<open>
  The request: its URI and the value of its \<^verbatim>\<open>sessionid\<close> cookie, \<open>None\<close> when
  \<^verbatim>\<open>r.Cookie\<close> returns \<^verbatim>\<open>http.ErrNoCookie\<close>.
\<close>

record Request =
  RequestURI :: string
  sessionCookie :: "string option"

definition startSession ::
  "ResponseWriter \<Rightarrow> Request \<Rightarrow> state \<Rightarrow> ((nat option \<times> bool \<times> error option) \<times> ResponseWriter \<times> state) option"
where
  "startSession w r st =
     (let (res, b) =
            (case sessionCookie r of
               None \<Rightarrow> (newSession [] st, True)
             | Some v \<Rightarrow> (newSession v st, False))
      in case res of
           None \<Rightarrow> None
         | Some ((s, err), st1) \<Rightarrow>
             Some ((s, b, err),
                   (case s of None \<Rightarrow> w | Some p \<Rightarrow> SetCookie (GetCookie p st1) w),
                   st1))"

section \<open>Responses\<close>

text \<open>response.go. A \<^verbatim>\<open>*BaseResponse\<close> is \<open>None\<close> when nil, and so is a nil map.\<close>

record BaseResponse =
  headers :: "(string \<times> string) list"
  status :: nat

text \<open>
  The values that implement \<^verbatim>\<open>Response\<close>: the three of the package, and \<open>UserResponse\<close>
  for a type of the application, given by what its \<^verbatim>\<open>Write\<close> does (\<open>None\<close>: it panics).
\<close>

datatype Response =
    JsonResponse "BaseResponse option" "(string \<times> gval) list option"
  | BlobResponse "BaseResponse option" string string string
  | RedirectResponse "BaseResponse option" string
  | UserResponse "ResponseWriter \<Rightarrow> ResponseWriter option"

datatype 'a outcome = Returned 'a | Panicked string

definition newBaseResponse :: BaseResponse where
  "newBaseResponse = \<lparr>headers = [], status = 200\<rparr>"

definition SetHeader :: "string \<Rightarrow> string \<Rightarrow> BaseResponse \<Rightarrow> BaseResponse" where
  "SetHeader key v b = b\<lparr>headers := AList.update key v (headers b)\<rparr>"

definition SetStatus :: "nat \<Rightarrow> BaseResponse \<Rightarrow> BaseResponse" where
  "SetStatus code b = b\<lparr>status := code\<rparr>"

definition apply_resp :: "BaseResponse \<Rightarrow> ResponseWriter \<Rightarrow> ResponseWriter" where
  "apply_resp b w = WriteHeader (status b) (foldl (\<lambda>w' kv. HeaderSet (fst kv) (snd kv) w') w (headers b))"

definition InitJsonResponse :: Response where
  "InitJsonResponse =
     JsonResponse (Some (SetHeader ''Content-Type'' ''application/json'' newBaseResponse))
       (Some (AList.update ''errors'' (GStrings []) (AList.update ''session'' (GBool True) [])))"

definition ensure ::
  "BaseResponse option \<Rightarrow> (string \<times> gval) list option \<Rightarrow> BaseResponse \<times> (string \<times> gval) list" where
  "ensure b d =
     (let b1 = (case b of None \<Rightarrow> newBaseResponse | Some x \<Rightarrow> x);
          (b2, d1) = (case d of
                        None \<Rightarrow> (SetHeader ''Content-Type'' ''application/json'' b1,
                                 AList.update ''session'' (GBool True) [])
                      | Some m \<Rightarrow> (b1, m));
          d2 = (if map_of d1 ''errors'' = None then AList.update ''errors'' (GStrings []) d1 else d1)
      in (b2, d2))"

text \<open>\<^verbatim>\<open>(*JsonResponse).Set\<close>; on a response of another kind the method does not exist.\<close>

fun JsonSet :: "string \<Rightarrow> gval \<Rightarrow> Response \<Rightarrow> Response" where
  "JsonSet key v (JsonResponse b d) =
     (let (b1, d1) = ensure b d in JsonResponse (Some b1) (Some (AList.update key v d1)))"
| "JsonSet key v r = r"

definition InitBlobResponse :: "string \<Rightarrow> string \<Rightarrow> string \<Rightarrow> Response" where
  "InitBlobResponse blob mimeType fileName =
     BlobResponse
       (Some (SetHeader ''Content-Disposition'' (''attachment; filename='' @ [CHR 0x22] @ fileName @ [CHR 0x22])
                (SetHeader ''Content-Type'' mimeType newBaseResponse)))
       blob mimeType fileName"

definition InitRedirectResponse :: "string \<Rightarrow> nat \<Rightarrow> Response" where
  "InitRedirectResponse location code =
     RedirectResponse (Some (SetHeader ''Location'' location (SetStatus code newBaseResponse))) location"

text \<open>
  \<^verbatim>\<open>Write\<close> of a \<^verbatim>\<open>Response\<close>. \<^verbatim>\<open>apply\<close> on a nil \<^verbatim>\<open>*BaseResponse\<close> dereferences it
  and panics; the JSON encoder writes nothing when it fails.
\<close>

fun ResponseWrite :: "(Time \<Rightarrow> string) \<Rightarrow> Response \<Rightarrow> ResponseWriter \<Rightarrow> ResponseWriter outcome" where
  "ResponseWrite fmt (JsonResponse b d) w =
     (let (b1, d1) = ensure b d; w1 = apply_resp b1 w in
      case encode fmt (GMap d1) of
        None \<Rightarrow> Returned w1
      | Some j \<Rightarrow> Returned (Write (JsonBody j) w1))"
| "ResponseWrite fmt (BlobResponse b blob mimeType fileName) w =
     (case b of
        None \<Rightarrow> Panicked ''invalid memory address or nil pointer dereference''
      | Some b1 \<Rightarrow> Returned (Write (Bytes blob) (apply_resp b1 w)))"
| "ResponseWrite fmt (RedirectResponse b location) w =
     (case b of
        None \<Rightarrow> Panicked ''invalid memory address or nil pointer dereference''
      | Some b1 \<Rightarrow> Returned (apply_resp b1 w))"
| "ResponseWrite fmt (UserResponse f) w =
     (case f w of None \<Rightarrow> Panicked ''panic in Write'' | Some w1 \<Rightarrow> Returned w1)"

section \<open>The dispatcher\<close>

text \<open>
  A handler, as \<^verbatim>\<open>utility.Method\<close> gives it: its parameter count and its call, which
  takes the arguments and the state and returns the results with an error, or panics.
  The first result is a \<^verbatim>\<open>Response\<close> (\<open>IsResponse\<close>) or any other value (\<open>Raw\<close>).
\<close>

datatype arg = ArgSession nat | ArgRequest Request

datatype hvalue = Raw gval | IsResponse Response

datatype houtcome = HReturn "hvalue list" "error option" | HPanic string

record Method =
  NumIn :: nat
  F :: "arg list \<Rightarrow> state \<Rightarrow> houtcome \<times> state"

datatype level = INFO | ERROR | FATAL

datatype logarg = AStr string | ANat nat | AErr error

datatype logentry = Logf level string "logarg list"

text \<open>
  What one run of \<^verbatim>\<open>handleRequest\<close> leaves: the response writer, the state, the lines
  logged and the argument lists the handler was called with.
\<close>

record Handled =
  rw :: ResponseWriter
  after :: state
  logs :: "logentry list"
  calls :: "arg list list"

definition redirectLogin :: "ResponseWriter \<Rightarrow> ResponseWriter" where
  "redirectLogin w = WriteHeader 307 (HeaderSet ''Location'' ''/Login'' w)"

text \<open>
  \<^verbatim>\<open>handleRequest\<close>. A panic is recovered by the deferred function, which logs it. In
  the last step the \<^verbatim>\<open>resp\<close> declared inside the block (\<open>inner\<close>) is another variable than
  the \<^verbatim>\<open>resp\<close> that is written: after a failed type assertion that one is nil.
\<close>

definition handleRequest ::
  "(Time \<Rightarrow> string) \<Rightarrow> Method option \<Rightarrow> string \<Rightarrow> bool \<Rightarrow> ResponseWriter \<Rightarrow> Request \<Rightarrow> state \<Rightarrow> Handled option"
where
  "handleRequest fmt m request hasAuth w r st =
     (case m of
        None \<Rightarrow> Some \<lparr>rw = WriteHeader 404 w, after = st, logs = [], calls = []\<rparr>
      | Some mth \<Rightarrow>
     (case startSession w r st of
        None \<Rightarrow> None
      | Some ((s, newSess, err), w1, st1) \<Rightarrow>
     (case err of
        Some e \<Rightarrow>
          Some \<lparr>rw = WriteHeader 500 w1, after = st1,
                logs = [Logf ERROR ''%v\<newline>'' [AErr e]], calls = []\<rparr>
      | None \<Rightarrow>
     (case s of
        None \<Rightarrow> Some \<lparr>rw = WriteHeader 500 w1, after = st1, logs = [], calls = []\<rparr>
      | Some p \<Rightarrow>
          if newSess \<and> request \<noteq> ''Login'' then
            Some \<lparr>rw = redirectLogin w1, after = st1, logs = [], calls = []\<rparr>
          else if hasAuth \<and> User p st1 = [] then
            Some \<lparr>rw = redirectLogin w1, after = st1, logs = [], calls = []\<rparr>
          else if NumIn mth \<noteq> 1 \<and> NumIn mth \<noteq> 2 then
            Some \<lparr>rw = WriteHeader 500 w1, after = st1,
                  logs = [Logf ERROR ''handler for %s has %d parameters\<newline>''
                            [AStr (RequestURI r), ANat (NumIn mth)]],
                  calls = []\<rparr>
          else
            (let args = (if NumIn mth = 1 then [ArgSession p] else [ArgSession p, ArgRequest r]) in
             case F mth args st1 of
               (HPanic msg, st2) \<Rightarrow>
                 Some \<lparr>rw = w1, after = st2, logs = [Logf ERROR ''%v'' [AStr msg]], calls = [args]\<rparr>
             | (HReturn res err2, st2) \<Rightarrow>
             (case err2 of
                Some e \<Rightarrow>
                  Some \<lparr>rw = WriteHeader 500 w1, after = st2,
                        logs = [Logf ERROR ''%v\<newline>'' [AErr e]], calls = [args]\<rparr>
              | None \<Rightarrow>
             (case res of
                [] \<Rightarrow>
                  Some \<lparr>rw = w1, after = st2,
                        logs = [Logf ERROR ''%v'' [AStr ''index out of range'']], calls = [args]\<rparr>
              | respi # rest \<Rightarrow>
                  (let resp = (case respi of IsResponse x \<Rightarrow> Some x | Raw v \<Rightarrow> None);
                       inner = (case respi of
                                  IsResponse x \<Rightarrow> None
                                | Raw v \<Rightarrow> Some (JsonSet ''data'' v InitJsonResponse))
                   in case resp of
                        None \<Rightarrow>
                          Some \<lparr>rw = w1, after = st2,
                                logs = [Logf ERROR ''%v''
                                          [AStr ''invalid memory address or nil pointer dereference'']],
                                calls = [args]\<rparr>
                      | Some x \<Rightarrow>
                          (case ResponseWrite fmt x w1 of
                             Panicked msg \<Rightarrow>
                               Some \<lparr>rw = w1, after = st2,
                                     logs = [Logf ERROR ''%v'' [AStr msg]], calls = [args]\<rparr>
                           | Returned w2 \<Rightarrow>
                               Some \<lparr>rw = w2, after = st2, logs = [], calls = [args]\<rparr>)))))))))"

section \<open>Resolution and the static fallback\<close>

text \<open>
  Modelled from the spec: the Path Stack (the type \<^verbatim>\<open>URI\<close> with \<^verbatim>\<open>InitURI\<close>, \<^verbatim>\<open>Pop\<close>,
  \<^verbatim>\<open>StackCount\<close> and \<^verbatim>\<open>ResetStack\<close>) is not among the sources. \<open>build\<close> splits on the path
  separator, discards empty segments and preserves order; \<open>pop\<close> removes and returns the
  leftmost segment, or the empty string when exhausted; \<open>reset\<close> restores what \<open>build\<close>
  produced.
\<close>

fun splitSlash :: "string \<Rightarrow> string list" where
  "splitSlash [] = [[]]"
| "splitSlash (c # cs) =
     (if c = CHR ''/'' then [] # splitSlash cs
      else (case splitSlash cs of [] \<Rightarrow> [[c]] | x # xs \<Rightarrow> (c # x) # xs))"

definition segments :: "string \<Rightarrow> string list" where
  "segments raw = filter (\<lambda>x. x \<noteq> []) (splitSlash raw)"

record URI =
  path :: string
  stack :: "string list"

definition InitURI :: "string \<Rightarrow> URI" where
  "InitURI raw = \<lparr>path = raw, stack = segments raw\<rparr>"

definition Pop :: "URI \<Rightarrow> string \<times> URI" where
  "Pop u = (case stack u of [] \<Rightarrow> ([], u) | x # xs \<Rightarrow> (x, u\<lparr>stack := xs\<rparr>))"

definition StackCount :: "URI \<Rightarrow> nat" where
  "StackCount u = length (stack u)"

definition ResetStack :: "URI \<Rightarrow> URI" where
  "ResetStack u = u\<lparr>stack := segments (path u)\<rparr>"

text \<open>
  A controller, as the reflective lookups of go-utility see it: what
  \<^verbatim>\<open>GetProperty(c, name, "", "controller", "auth")\<close> finds (\<open>authControllers\<close>), what
  \<^verbatim>\<open>GetProperty(c, name, "", "controller")\<close> finds (\<open>controllers\<close>) and what
  \<^verbatim>\<open>GetMethod(c, name, "Request")\<close> finds (\<open>requests\<close>).
\<close>

datatype controller =
  Controller (authControllers: "(string \<times> controller) list")
             (controllers: "(string \<times> controller) list")
             (requests: "(string \<times> Method) list")

definition GetPropertyAuth :: "controller \<Rightarrow> string \<Rightarrow> controller option" where
  "GetPropertyAuth c name = map_of (authControllers c) name"

definition GetProperty :: "controller \<Rightarrow> string \<Rightarrow> controller option" where
  "GetProperty c name = map_of (controllers c) name"

definition GetMethod :: "controller \<Rightarrow> string \<Rightarrow> Method option" where
  "GetMethod c name = map_of (requests c) name"

text \<open>The loop of the closure that \<^verbatim>\<open>getHandler\<close> returns.\<close>

function getHandler_loop :: "controller option \<Rightarrow> URI \<Rightarrow> bool \<Rightarrow> controller option \<times> URI \<times> bool" where
  "getHandler_loop None uri hasAuth = (None, uri, hasAuth)"
| "getHandler_loop (Some c) uri hasAuth =
     (if StackCount uri > 1 then
        (case Pop uri of
           (controllerName, uri1) \<Rightarrow>
             (case GetPropertyAuth c controllerName of
                Some controllerAuth \<Rightarrow> getHandler_loop (Some controllerAuth) uri1 True
              | None \<Rightarrow> getHandler_loop (GetProperty c controllerName) uri1 hasAuth))
      else (Some c, uri, hasAuth))"
  by pat_completeness auto
termination
  by (relation "measure (\<lambda>(c, uri, hasAuth). StackCount uri)")
     (auto simp: Pop_def StackCount_def split: list.splits)

declare getHandler_loop.simps [simp del]

text \<open>\<^verbatim>\<open>os.Stat\<close>: whether the path is a directory, or \<open>None\<close> when it does not exist.\<close>

definition Stat :: "state \<Rightarrow> string \<Rightarrow> bool option" where
  "Stat st p =
     (if p \<in> set (dirs st) then Some True
      else if map_of (files st) p \<noteq> None then Some False
      else None)"

text \<open>\<^verbatim>\<open>http.ServeFile\<close> and \<^verbatim>\<open>http.NotFound\<close>, as far as the dispatcher decides them.\<close>

definition ServeFile :: "string \<Rightarrow> ResponseWriter \<Rightarrow> ResponseWriter" where
  "ServeFile name w = Write (File name) w"

definition NotFound :: "ResponseWriter \<Rightarrow> ResponseWriter" where
  "NotFound w =
     Write (Bytes ''404 page not found'')
       (WriteHeader 404
          (HeaderSet ''X-Content-Type-Options'' ''nosniff''
             (HeaderSet ''Content-Type'' ''text/plain; charset=utf-8'' w)))"

definition ErrNotExist :: error where
  "ErrNotExist = Error ''file does not exist''"

text \<open>Two facts on filtered lists, for the termination of \<open>handleFile\<close>.\<close>

lemma filter_length_mono:
  "(\<And>d. d \<in> set ds \<Longrightarrow> P d \<Longrightarrow> Q d) \<Longrightarrow> length (filter P ds) \<le> length (filter Q ds)"
  by (induction ds) auto

lemma filter_length_less:
  "(\<And>d. d \<in> set ds \<Longrightarrow> P d \<Longrightarrow> Q d) \<Longrightarrow> x \<in> set ds \<Longrightarrow> Q x \<Longrightarrow> \<not> P x
   \<Longrightarrow> length (filter P ds) < length (filter Q ds)"
proof (induction ds)
  case Nil
  then show ?case by simp
next
  case (Cons a ds)
  have mono: "length (filter P ds) \<le> length (filter Q ds)"
    using Cons.prems(1) by (intro filter_length_mono) auto
  show ?case
  proof (cases "a = x")
    case True
    then show ?thesis using Cons.prems mono by auto
  next
    case False
    then have "length (filter P ds) < length (filter Q ds)"
      using Cons by auto
    then show ?thesis using Cons.prems(1)[of a] by auto
  qed
qed

text \<open>
  \<^verbatim>\<open>handleFile\<close>; \<open>uri\<close> is \<open>None\<close> for the nil pointer. The stack it pops is not read
  again by the callers, so only the error and the writer are returned.
\<close>

function handleFile :: "state \<Rightarrow> string \<Rightarrow> URI option \<Rightarrow> ResponseWriter \<Rightarrow> error option \<times> ResponseWriter" where
  "handleFile st filePath uri w =
     (case (case uri of None \<Rightarrow> ([], None) | Some u \<Rightarrow> (fst (Pop u), Some (snd (Pop u)))) of
        (part, uri1) \<Rightarrow>
          (case (if part \<noteq> [] then handleFile st (filePath @ ''/'' @ part) uri1 w
                 else (Some ErrNotExist, w)) of
             (err, w1) \<Rightarrow>
               (if err \<noteq> None then
                  (case Stat st filePath of
                     None \<Rightarrow> (Some ErrNotExist, w1)
                   | Some isDir \<Rightarrow>
                       (if isDir then handleFile st (filePath @ ''/'' @ ''index.html'') None w1
                        else (None, ServeFile filePath w1)))
                else (err, w1))))"
  by pat_completeness auto
termination
  apply (relation "measures [\<lambda>(st, filePath, uri, w). (case uri of None \<Rightarrow> 0 | Some u \<Rightarrow> Suc (StackCount u)),
                           \<lambda>(st, filePath, uri, w). length (filter (\<lambda>d. length filePath \<le> length d) (dirs st))]")
  apply simp
  apply (auto simp: Pop_def StackCount_def split: option.splits list.splits)[1]
  apply (auto simp: Stat_def split: option.splits if_splits intro!: filter_length_less)
  done

declare handleFile.simps [simp del]

definition handleDist :: "string \<Rightarrow> URI \<Rightarrow> ResponseWriter \<Rightarrow> Request \<Rightarrow> state \<Rightarrow> Handled" where
  "handleDist dist uri w r st =
     (let uri1 = ResetStack uri in
      case handleFile st dist (Some uri1) w of
        (None, w1) \<Rightarrow> \<lparr>rw = w1, after = st, logs = [], calls = []\<rparr>
      | (Some e, w1) \<Rightarrow>
          \<lparr>rw = NotFound w1, after = st,
           logs = [Logf INFO (''not found `%s`'' @ path uri1) []], calls = []\<rparr>)"

text \<open>
  The closure that \<^verbatim>\<open>getHandler\<close> returns, for the root controller (\<open>None\<close>: nil) and
  the static root \<open>dist\<close>. \<open>resolve\<close> is its first part, up to the choice between
  \<^verbatim>\<open>handleRequest\<close> and \<^verbatim>\<open>handleDist\<close>: the handler name, the handler found, \<^verbatim>\<open>hasAuth\<close>
  and the URI as popped so far.
\<close>

definition resolve :: "controller option \<Rightarrow> URI \<Rightarrow> string \<times> Method option \<times> bool \<times> URI" where
  "resolve controller uri =
     (case getHandler_loop controller uri False of
        (c, uri1, hasAuth) \<Rightarrow>
          (case c of
             None \<Rightarrow> ([], None, hasAuth, uri1)
           | Some c1 \<Rightarrow>
               (case Pop uri1 of
                  (request, uri2) \<Rightarrow>
                    (request, if request \<noteq> [] then GetMethod c1 request else None, hasAuth, uri2))))"

definition getHandler ::
  "(Time \<Rightarrow> string) \<Rightarrow> controller option \<Rightarrow> string \<Rightarrow> ResponseWriter \<Rightarrow> Request \<Rightarrow> state \<Rightarrow> Handled option"
where
  "getHandler fmt controller dist w r st =
     (case resolve controller (InitURI (RequestURI r)) of
        (request, f, hasAuth, uri2) \<Rightarrow>
          map_option (\<lambda>h. h\<lparr>logs := Logf INFO ''URI: %s'' [AStr (RequestURI r)] # logs h\<rparr>)
            (case f of
               Some m \<Rightarrow> handleRequest fmt (Some m) request hasAuth w r st
             | None \<Rightarrow> Some (handleDist dist uri2 w r st)))"

section \<open>Checkpoint and restore\<close>

text \<open>The map \<^verbatim>\<open>mx\<close> that \<^verbatim>\<open>SessionDump\<close> builds for one session.\<close>

definition dumpEntry :: "Session \<Rightarrow> gval" where
  "dumpEntry sx =
     GMap (AList.update ''userName'' (GString (userName sx))
            (AList.update ''lastOp'' (GTime (lastOp sx))
              (AList.update ''data'' (GMap (data sx))
                (AList.update ''id'' (GString (sid sx)) []))))"

text \<open>
  \<^verbatim>\<open>SessionDump\<close>. Opening for writing fails on the empty path and on a denied one;
  otherwise it truncates the file, and the encoder writes the document or, when it fails,
  nothing.
\<close>

definition SessionDump :: "(Time \<Rightarrow> string) \<Rightarrow> string \<Rightarrow> state \<Rightarrow> error option \<times> state" where
  "SessionDump fmt p st =
     (let m = foldl (\<lambda>m kp. AList.update (sid (heap st ! snd kp)) (dumpEntry (heap st ! snd kp)) m)
                [] (activeSessions st)
      in if p = [] \<or> p \<in> set (denied st) then (appendError (Some (Error ''open'')), st)
         else
           (let st1 = st\<lparr>files := AList.update p (Garbage []) (files st)\<rparr> in
            case encode fmt (GMap m) of
              None \<Rightarrow> (appendError (Some (Error ''json: unsupported type'')), st1)
            | Some j \<Rightarrow> (appendError None, st1\<lparr>files := AList.update p (Doc j) (files st1)\<rparr>)))"

definition chronoSerialize :: "(Time \<Rightarrow> string) \<Rightarrow> string \<Rightarrow> state \<Rightarrow> logentry list \<times> state" where
  "chronoSerialize fmt p st =
     (case SessionDump fmt p st of
        (Some e, st1) \<Rightarrow> ([Logf ERROR ''%v'' [AErr e]], st1)
      | (None, st1) \<Rightarrow> ([], st1))"

text \<open>
  \<^verbatim>\<open>dec.Decode(&m)\<close> on the content of the file, for the empty map \<^verbatim>\<open>m\<close>: the map
  afterwards and the error returned.
\<close>

fun Decode :: "fcontent \<Rightarrow> (string \<times> gval) list \<times> error option" where
  "Decode (Garbage t) = ([], Some (Error ''invalid character''))"
| "Decode (Doc (JObj kjs)) = (lastWins (map (\<lambda>kj. (fst kj, decode (snd kj))) kjs), None)"
| "Decode (Doc JNull) = ([], None)"
| "Decode (Doc j) = ([], Some (Error ''json: cannot unmarshal''))"

text \<open>The type assertions \<^verbatim>\<open>.(string)\<close> and \<^verbatim>\<open>.(map[string]interface{})\<close> on \<^verbatim>\<open>mx[key]\<close>;
  \<open>None\<close> is the panic.\<close>

fun asString :: "gval option \<Rightarrow> string option" where
  "asString (Some (GString s)) = Some s"
| "asString v = None"

fun asMap :: "gval option \<Rightarrow> (string \<times> gval) list option" where
  "asMap (Some (GMap m)) = Some m"
| "asMap v = None"

text \<open>
  The body of the loop of \<^verbatim>\<open>RestoreSessions\<close> up to the session it builds; \<open>parse\<close> is
  \<^verbatim>\<open>time.Parse(time.RFC3339Nano, _)\<close>, whose error is dropped and leaves the zero time.
\<close>

definition restoreEntry :: "(string \<Rightarrow> Time option) \<Rightarrow> gval \<Rightarrow> Session option" where
  "restoreEntry parse mxi =
     (case asMap (Some mxi) of
        None \<Rightarrow> None
      | Some mx \<Rightarrow>
     (case asString (map_of mx ''lastOp'') of
        None \<Rightarrow> None
      | Some l \<Rightarrow>
     (case asString (map_of mx ''id'') of
        None \<Rightarrow> None
      | Some i \<Rightarrow>
     (case asMap (map_of mx ''data'') of
        None \<Rightarrow> None
      | Some d \<Rightarrow>
     (case asString (map_of mx ''userName'') of
        None \<Rightarrow> None
      | Some u \<Rightarrow>
          Some \<lparr>sid = i, userName = u,
                lastOp = (case parse l of None \<Rightarrow> zeroTime | Some tm \<Rightarrow> tm),
                data = d\<rparr>)))))"

fun restoreLoop :: "(string \<Rightarrow> Time option) \<Rightarrow> (string \<times> gval) list \<Rightarrow> state \<Rightarrow> unit outcome \<times> state" where
  "restoreLoop parse [] st = (Returned (), st)"
| "restoreLoop parse (kv # rest) st =
     (case restoreEntry parse (snd kv) of
        None \<Rightarrow> (Panicked ''interface conversion'', st)
      | Some sx \<Rightarrow>
          restoreLoop parse rest
            (st\<lparr>heap := heap st @ [sx],
                activeSessions := AList.update (sid sx) (length (heap st)) (activeSessions st)\<rparr>))"

definition RestoreSessions ::
  "(string \<Rightarrow> Time option) \<Rightarrow> string \<Rightarrow> state \<Rightarrow> error option outcome \<times> state" where
  "RestoreSessions parse sessionDumpPath st =
     (if sessionDumpPath = [] then (Returned None, st)
      else
        (case map_of (files st) sessionDumpPath of
           None \<Rightarrow> (Returned (appendError (Some (Error ''open''))), st)
         | Some c \<Rightarrow>
             (case Decode c of
                (m, decodeErr) \<Rightarrow>
                  (case restoreLoop parse m st of
                     (Panicked msg, st1) \<Rightarrow> (Panicked msg, st1)
                   | (Returned u, st1) \<Rightarrow> (Returned (appendError None), st1)))))"

text \<open>
  \<^verbatim>\<open>Run\<close> up to the point where it starts to listen: the sessions are restored and a
  failure is logged. A panic of the restore is not recovered and ends the process.
\<close>

definition Run :: "(string \<Rightarrow> Time option) \<Rightarrow> string \<Rightarrow> state \<Rightarrow> (logentry list) outcome \<times> state" where
  "Run parse sessionDumpPath st =
     (case RestoreSessions parse sessionDumpPath st of
        (Panicked msg, st1) \<Rightarrow> (Panicked msg, st1)
      | (Returned (Some e), st1) \<Rightarrow>
          (Returned [Logf ERROR ''could not restore sessions: %s'' [AErr e]], st1)
      | (Returned None, st1) \<Rightarrow> (Returned [], st1))"

section \<open>The static fallback as specified\<close>

text \<open>
  The static fallback in the words of the specification. The paths tried, in order: the
  root extended by all segments, then by all but the last, and so on down to the root.
  For a tried path: a regular file is served itself, a directory stands for its
  \<^verbatim>\<open>index.html\<close>, tried in the same way, and a missing path is a miss. The first tried path
  that is no miss decides; when all miss the answer is not-found.
\<close>

definition nested :: "string \<Rightarrow> string list \<Rightarrow> string" where
  "nested root segs = foldl (\<lambda>p s. p @ ''/'' @ s) root segs"

definition candidates :: "string \<Rightarrow> string list \<Rightarrow> string list" where
  "candidates root segs = map (\<lambda>k. nested root (take k segs)) (rev [0..<Suc (length segs)])"

function served :: "state \<Rightarrow> string \<Rightarrow> string option" where
  "served st p =
     (case Stat st p of
        None \<Rightarrow> None
      | Some isDir \<Rightarrow> (if isDir then served st (p @ ''/'' @ ''index.html'') else Some p))"
  by pat_completeness auto
termination
  apply (relation "measure (\<lambda>(st, p). length (filter (\<lambda>d. length p \<le> length d) (dirs st)))")
  apply simp
  apply (auto simp: Stat_def split: if_splits intro!: filter_length_less)
  done

fun firstServed :: "state \<Rightarrow> string list \<Rightarrow> string option" where
  "firstServed st [] = None"
| "firstServed st (p # ps) = (case served st p of Some f \<Rightarrow> Some f | None \<Rightarrow> firstServed st ps)"

definition staticFallback :: "state \<Rightarrow> string \<Rightarrow> string list \<Rightarrow> ResponseWriter \<Rightarrow> ResponseWriter" where
  "staticFallback st root segs w =
     (case firstServed st (candidates root segs) of
        Some f \<Rightarrow> ServeFile f w
      | None \<Rightarrow> NotFound w)"

declare served.simps [simp del]

section \<open>The reachable states of the store\<close>

text \<open>
  The operations on the store that the package offers, and two steps of the environment:
  the clock moves, a file is written from outside. A session method is called on a
  pointer that has been allocated.
\<close>

datatype op =
    ResolveOrCreate string
  | OpGet nat string
  | OpSet nat string gval
  | OpSetUser nat string
  | OpDelete nat
  | OpDump string
  | OpRestore string
  | OpTick Time
  | OpWriteFile string fcontent

text \<open>One operation; \<open>None\<close> when it does not return (the id loop runs on, the restore panics).\<close>

fun run :: "(Time \<Rightarrow> string) \<Rightarrow> (string \<Rightarrow> Time option) \<Rightarrow> op \<Rightarrow> state \<Rightarrow> state option" where
  "run fmt parse (ResolveOrCreate i) st = map_option snd (newSession i st)"
| "run fmt parse (OpGet s key) st = (if s < length (heap st) then Some (snd (Get s key st)) else None)"
| "run fmt parse (OpSet s key v) st = (if s < length (heap st) then Some (Set s key v st) else None)"
| "run fmt parse (OpSetUser s usr) st = (if s < length (heap st) then Some (SetUser s usr st) else None)"
| "run fmt parse (OpDelete s) st = (if s < length (heap st) then Some (Delete s st) else None)"
| "run fmt parse (OpDump p) st = Some (snd (SessionDump fmt p st))"
| "run fmt parse (OpRestore p) st =
     (case RestoreSessions parse p st of
        (Returned e, st1) \<Rightarrow> Some st1
      | (Panicked msg, st1) \<Rightarrow> None)"
| "run fmt parse (OpTick t) st = Some (st\<lparr>clock := t\<rparr>)"
| "run fmt parse (OpWriteFile p c) st = Some (st\<lparr>files := AList.update p c (files st)\<rparr>)"

text \<open>The states the process can be in: it starts with an empty store and an empty heap.\<close>

inductive reachable :: "state \<Rightarrow> bool" where
  start: "activeSessions st = [] \<Longrightarrow> heap st = [] \<Longrightarrow> reachable st"
| step: "reachable st \<Longrightarrow> run fmt parse op st = Some st1 \<Longrightarrow> reachable st1"

text \<open>
  The invariant of the store: the keys are distinct, every pointer is allocated, and
  every entry is keyed by the id of its session. \<open>ids\<close> are the keys.
\<close>

definition storeInv :: "state \<Rightarrow> bool" where
  "storeInv st =
     (distinct (map fst (activeSessions st))
      \<and> list_all (\<lambda>kp. snd kp < length (heap st) \<and> sid (heap st ! snd kp) = fst kp) (activeSessions st))"

definition ids :: "state \<Rightarrow> string set" where
  "ids st = set (map fst (activeSessions st))"

section \<open>Sample inputs\<close>

definition demoClock :: Time where
  "demoClock = \<lparr>nanos = 1700000000000000000, mono = Some 5\<rparr>"

definition demoFmt :: "Time \<Rightarrow> string" where
  "demoFmt t = (if nanos t = 1700000000000000000 then ''2023-11-14T22:13:20Z'' else ''0001-01-01T00:00:00Z'')"

definition demoParse :: "string \<Rightarrow> Time option" where
  "demoParse s =
     (if s = ''2023-11-14T22:13:20Z'' then Some \<lparr>nanos = 1700000000000000000, mono = None\<rparr>
      else if s = ''0001-01-01T00:00:00Z'' then Some zeroTime
      else None)"

definition emptyState :: state where
  "emptyState =
     \<lparr>activeSessions = [], heap = [], clock = demoClock,
      rand = (\<lambda>k. (''abcdefghijklmnopqrstuvwx'', None)), rpos = 0,
      files = [], dirs = [], denied = []\<rparr>"

definition oneState :: state where
  "oneState =
     emptyState\<lparr>activeSessions := [(''abc'', 0)],
                heap := [\<lparr>sid = ''abc'', userName = ''ann'', lastOp = zeroTime,
                          data = [(''k'', GString ''v'')]\<rparr>]\<rparr>"

text \<open>The writer a request starts with: nothing set, nothing written.\<close>

definition emptyWriter :: ResponseWriter where
  "emptyWriter = \<lparr>wheader = [], wstatus = None, wbody = []\<rparr>"

text \<open>A handler of one parameter that returns the string \<^verbatim>\<open>hello\<close>, and one of no parameter.\<close>

definition helloMethod :: Method where
  "helloMethod = \<lparr>NumIn = 1, F = (\<lambda>args st. (HReturn [Raw (GString ''hello'')] None, st))\<rparr>"

definition noParamMethod :: Method where
  "noParamMethod = \<lparr>NumIn = 0, F = (\<lambda>args st. (HReturn [Raw (GString ''hello'')] None, st))\<rparr>"

text \<open>A first request without a cookie, and the state after its session is created.\<close>

definition dashboardRequest :: Request where
  "dashboardRequest = \<lparr>RequestURI = ''/Dashboard'', sessionCookie = None\<rparr>"

definition firstState :: state where
  "firstState =
     emptyState\<lparr>activeSessions := [(''abcdefghijklmnopqrstuvwx'', 0)],
                heap := [\<lparr>sid = ''abcdefghijklmnopqrstuvwx'', userName = [], lastOp = demoClock,
                          data = []\<rparr>],
                rpos := 1\<rparr>"

text \<open>A first request for \<^verbatim>\<open>/Login\<close>, without a cookie.\<close>

definition loginRequest :: Request where
  "loginRequest = \<lparr>RequestURI = ''/Login'', sessionCookie = None\<rparr>"

text \<open>A state whose dump file is no JSON.\<close>

definition garbageState :: state where
  "garbageState = emptyState\<lparr>files := [(''sessions.json'', Garbage ''not json'')]\<rparr>"

text \<open>
  A root with an auth-gated and a plain sub-controller of the same name, each with a
  handler \<^verbatim>\<open>Profile\<close>.
\<close>

definition gatedMethod :: Method where
  "gatedMethod = \<lparr>NumIn = 1, F = (\<lambda>args st. (HReturn [IsResponse (InitRedirectResponse ''/gated'' 302)] None, st))\<rparr>"

definition plainMethod :: Method where
  "plainMethod = \<lparr>NumIn = 1, F = (\<lambda>args st. (HReturn [IsResponse (InitRedirectResponse ''/plain'' 302)] None, st))\<rparr>"

definition bothRoot :: controller where
  "bothRoot =
     Controller [(''Account'', Controller [] [] [(''Profile'', gatedMethod)])]
                [(''Account'', Controller [] [] [(''Profile'', plainMethod)])]
                []"

text \<open>A static root with a directory \<^verbatim>\<open>assets\<close> that holds an \<^verbatim>\<open>index.html\<close>, and a request below it.\<close>

definition distState :: state where
  "distState =
     emptyState\<lparr>dirs := [''dist'', ''dist/assets''],
                files := [(''dist/assets/index.html'', Garbage ''<html></html>'')]\<rparr>"

definition logoRequest :: Request where
  "logoRequest = \<lparr>RequestURI = ''/assets/img/logo.png'', sessionCookie = None\<rparr>"

text \<open>
  A state whose dump file holds one session, and the state after the candidate \<^verbatim>\<open>abc\<close> is
  resolved on the empty store.
\<close>

definition dumpedState :: state where
  "dumpedState =
     emptyState\<lparr>files :=
       [(''sessions.json'',
         Doc (JObj [(''abc'', JObj [(''id'', JStr ''abc''), (''data'', JObj []),
                                   (''lastOp'', JStr ''2023-11-14T22:13:20Z''),
                                   (''userName'', JStr ''ann'')])]))]\<rparr>"

definition createdState :: state where
  "createdState =
     emptyState\<lparr>heap := [\<lparr>sid = ''abc'', userName = [], lastOp = demoClock, data = []\<rparr>],
                activeSessions := [(''abc'', 0)]\<rparr>"

section \<open>Resolution or creation of a session\<close>

text \<open>
  C4. A candidate id that is not empty and not in the store: \<^verbatim>\<open>newSession\<close> allocates a
  new session with that id, no user and no data, stamps it with the clock, stores it under
  that id and leaves every other session as it was; \<^verbatim>\<open>startSession\<close> reports it as not
  new and sets the cookie.
\<close>

theorem newSession_absent_candidate:
  assumes "id0 \<noteq> []" and "map_of (activeSessions st) id0 = None"
  shows "\<exists>st'. newSession id0 st = Some ((Some (length (heap st)), None), st')
           \<and> heap st' = heap st @ [\<lparr>sid = id0, userName = [], lastOp = clock st, data = []\<rparr>]
           \<and> map_of (activeSessions st') = (map_of (activeSessions st))(id0 \<mapsto> length (heap st))
           \<and> startSession w \<lparr>RequestURI = u, sessionCookie = Some id0\<rparr> st
               = Some ((Some (length (heap st)), False, None),
                       SetCookie (GetCookie (length (heap st)) st') w, st')"
  using assms
  by (simp add: newSession_def startSession_def Let_def update_conv')

theorem newSession_absent_candidate_witness:
  "''abc'' \<noteq> [] \<and> map_of (activeSessions emptyState) ''abc'' = None
   \<and> (\<exists>st'. newSession ''abc'' emptyState = Some ((Some 0, None), st')
           \<and> heap st' = [\<lparr>sid = ''abc'', userName = [], lastOp = demoClock, data = []\<rparr>]
           \<and> map_of (activeSessions st') ''abc'' = Some 0
           \<and> startSession emptyWriter \<lparr>RequestURI = ''/Login'', sessionCookie = Some ''abc''\<rparr> emptyState
               = Some ((Some 0, False, None), SetCookie (GetCookie 0 st') emptyWriter, st'))"
  using newSession_absent_candidate [of "''abc''" emptyState emptyWriter "''/Login''"]
  by (auto simp add: emptyState_def)

text \<open>
  C9. A candidate id that is not empty and is in the store: \<^verbatim>\<open>newSession\<close> returns the
  stored pointer and changes nothing but the \<^verbatim>\<open>lastOp\<close> of that session, which becomes
  the clock; \<^verbatim>\<open>startSession\<close> reports it as not new.
\<close>

theorem newSession_present_candidate:
  assumes "id0 \<noteq> []" and "map_of (activeSessions st) id0 = Some p" and "p < length (heap st)"
  shows "\<exists>st'. newSession id0 st = Some ((Some p, None), st')
           \<and> st' = st\<lparr>heap := (heap st)[p := (heap st ! p)\<lparr>lastOp := clock st\<rparr>]\<rparr>
           \<and> activeSessions st' = activeSessions st
           \<and> length (heap st') = length (heap st)
           \<and> sid (heap st' ! p) = sid (heap st ! p)
           \<and> userName (heap st' ! p) = userName (heap st ! p)
           \<and> data (heap st' ! p) = data (heap st ! p)
           \<and> lastOp (heap st' ! p) = clock st
           \<and> (\<forall>q. q \<noteq> p \<longrightarrow> heap st' ! q = heap st ! q)
           \<and> startSession w \<lparr>RequestURI = u, sessionCookie = Some id0\<rparr> st
               = Some ((Some p, False, None), SetCookie (GetCookie p st') w, st')"
  using assms
  by (simp add: newSession_def startSession_def Let_def)

theorem newSession_present_candidate_witness:
  "''abc'' \<noteq> [] \<and> map_of (activeSessions oneState) ''abc'' = Some 0 \<and> 0 < length (heap oneState)
   \<and> (\<exists>st'. newSession ''abc'' oneState = Some ((Some 0, None), st')
           \<and> activeSessions st' = [(''abc'', 0)]
           \<and> heap st' = [\<lparr>sid = ''abc'', userName = ''ann'', lastOp = demoClock,
                           data = [(''k'', GString ''v'')]\<rparr>])"
  using newSession_present_candidate [of "''abc''" oneState 0 emptyWriter "''/Login''"]
  by (auto simp add: oneState_def emptyState_def)

section \<open>The login redirect\<close>

lemma startSession_new_flag:
  "startSession w r st = Some ((s, b, err), w1, st1) \<Longrightarrow> b = (sessionCookie r = None)"
  by (auto simp: startSession_def split: option.splits prod.splits)

lemma startSession_writer:
  "startSession w r st = Some ((Some p, b, err), w1, st1) \<Longrightarrow> w1 = SetCookie (GetCookie p st1) w"
  by (auto simp: startSession_def split: option.splits prod.splits)

lemma startSession_status:
  "startSession w r st = Some ((s, b, err), w1, st1) \<Longrightarrow> wstatus w1 = wstatus w"
  by (auto simp: startSession_def SetCookie_def split: option.splits prod.splits)

lemma redirect_iff:
  "(\<exists>h. handleRequest fmt (Some m) request hasAuth emptyWriter r st = Some h
        \<and> wstatus (rw h) = Some 307
        \<and> (''Location'', HStr ''/Login'') \<in> set (wheader (rw h))
        \<and> calls h = [])
   = (\<exists>p b w1 st1. startSession emptyWriter r st = Some ((Some p, b, None), w1, st1)
        \<and> ((sessionCookie r = None \<and> request \<noteq> ''Login'') \<or> (hasAuth \<and> User p st1 = [])))"
  (is "?L = ?R")
proof
  assume ?L
  then obtain h where h: "handleRequest fmt (Some m) request hasAuth emptyWriter r st = Some h"
    and s307: "wstatus (rw h) = Some 307" and nocall: "calls h = []"
    by blast
  from h obtain s b err w1 st1 where ss: "startSession emptyWriter r st = Some ((s, b, err), w1, st1)"
    by (auto simp: handleRequest_def split: option.splits prod.splits)
  have w1: "wstatus w1 = None"
    using startSession_status[OF ss] by (simp add: emptyWriter_def)
  have b: "b = (sessionCookie r = None)"
    by (rule startSession_new_flag[OF ss])
  show ?R
    using h s307 nocall ss w1 b
    by (auto simp: handleRequest_def WriteHeader_def Let_def
             split: option.splits prod.splits if_splits houtcome.splits list.splits outcome.splits)
next
  assume ?R
  then obtain p b w1 st1 where ss: "startSession emptyWriter r st = Some ((Some p, b, None), w1, st1)"
    and c: "(sessionCookie r = None \<and> request \<noteq> ''Login'') \<or> (hasAuth \<and> User p st1 = [])"
    by blast
  have w1: "wstatus w1 = None"
    using startSession_status[OF ss] by (simp add: emptyWriter_def)
  have b: "b = (sessionCookie r = None)"
    by (rule startSession_new_flag[OF ss])
  show ?L
    using ss c w1 b
    by (auto simp: handleRequest_def redirectLogin_def WriteHeader_def HeaderSet_def)
qed

lemma redirect_carries_cookie:
  assumes "sessionCookie r = None" and "request \<noteq> ''Login''"
    and ss: "startSession emptyWriter r st = Some ((Some p, b, None), w1, st1)"
  shows "\<exists>h. handleRequest fmt (Some m) request hasAuth emptyWriter r st = Some h
           \<and> wstatus (rw h) = Some 307
           \<and> (''Set-Cookie'', HCookie (GetCookie p st1)) \<in> set (wheader (rw h))
           \<and> Name (GetCookie p st1) = ''sessionid''
           \<and> Value (GetCookie p st1) = sid (heap st1 ! p)"
proof -
  have b: "b" using startSession_new_flag[OF ss] assms(1) by simp
  have w1: "w1 = SetCookie (GetCookie p st1) emptyWriter"
    by (rule startSession_writer[OF ss])
  show ?thesis
    using ss b assms(2)
    by (simp add: handleRequest_def redirectLogin_def WriteHeader_def HeaderSet_def w1 SetCookie_def
                  emptyWriter_def GetCookie_def)
qed

text \<open>
  C3. On a request whose handler is resolved, the dispatcher answers 307 with the location
  \<^verbatim>\<open>/Login\<close> and calls no handler exactly when the session is resolved and either the
  request presented no cookie and the handler name is not \<^verbatim>\<open>Login\<close>, or the path requires
  authentication and the session has no user. In the first case that response carries the
  \<^verbatim>\<open>sessionid\<close> cookie of the new session.
\<close>

theorem redirect_to_login_exactly_when:
  "((\<exists>h. handleRequest fmt (Some m) request hasAuth emptyWriter r st = Some h
        \<and> wstatus (rw h) = Some 307
        \<and> (''Location'', HStr ''/Login'') \<in> set (wheader (rw h))
        \<and> calls h = [])
    = (\<exists>p b w1 st1. startSession emptyWriter r st = Some ((Some p, b, None), w1, st1)
        \<and> ((sessionCookie r = None \<and> request \<noteq> ''Login'') \<or> (hasAuth \<and> User p st1 = []))))
   \<and> (sessionCookie r = None \<and> request \<noteq> ''Login''
        \<and> startSession emptyWriter r st = Some ((Some p, b, None), w1, st1)
       \<longrightarrow> (\<exists>h. handleRequest fmt (Some m) request hasAuth emptyWriter r st = Some h
              \<and> wstatus (rw h) = Some 307
              \<and> (''Set-Cookie'', HCookie (GetCookie p st1)) \<in> set (wheader (rw h))
              \<and> Name (GetCookie p st1) = ''sessionid''
              \<and> Value (GetCookie p st1) = sid (heap st1 ! p)))"
  using redirect_iff [of fmt m request hasAuth r st]
        redirect_carries_cookie [of r request st p b w1 st1 fmt m hasAuth]
  by blast

lemma startSession_first:
  "startSession emptyWriter dashboardRequest emptyState
     = Some ((Some 0, True, None), SetCookie (GetCookie 0 firstState) emptyWriter, firstState)"
  by (simp add: startSession_def dashboardRequest_def newSession_def emptyState_def firstState_def
                drawId.simps Let_def)

theorem redirect_to_login_exactly_when_witness:
  "sessionCookie dashboardRequest = None \<and> ''Dashboard'' \<noteq> ''Login''
   \<and> startSession emptyWriter dashboardRequest emptyState
       = Some ((Some 0, True, None), SetCookie (GetCookie 0 firstState) emptyWriter, firstState)
   \<and> (\<exists>h. handleRequest demoFmt (Some helloMethod) ''Dashboard'' False emptyWriter dashboardRequest emptyState
              = Some h
          \<and> wstatus (rw h) = Some 307
          \<and> (''Location'', HStr ''/Login'') \<in> set (wheader (rw h))
          \<and> calls h = [])
   \<and> (\<exists>h. handleRequest demoFmt (Some helloMethod) ''Dashboard'' False emptyWriter dashboardRequest emptyState
              = Some h
          \<and> (''Set-Cookie'', HCookie (GetCookie 0 firstState)) \<in> set (wheader (rw h))
          \<and> Value (GetCookie 0 firstState) = ''abcdefghijklmnopqrstuvwx'')"
proof -
  have c: "sessionCookie dashboardRequest = None" "''Dashboard'' \<noteq> ''Login''"
    by (simp_all add: dashboardRequest_def)
  note t = redirect_to_login_exactly_when
             [of demoFmt helloMethod "''Dashboard''" False dashboardRequest emptyState
                 0 True "SetCookie (GetCookie 0 firstState) emptyWriter" firstState]
  have v: "Value (GetCookie 0 firstState) = ''abcdefghijklmnopqrstuvwx''"
    by (simp add: GetCookie_def firstState_def)
  from t c startSession_first v show ?thesis
    by (metis (no_types, lifting))
qed

section \<open>The parameter count of the handler\<close>

lemma SetCookie_fields [simp]:
  "wstatus (SetCookie c w) = wstatus w"
  "wbody (SetCookie c w) = wbody w"
  "wheader (SetCookie c w) = wheader w @ [(''Set-Cookie'', HCookie c)]"
  by (simp_all add: SetCookie_def)

lemma emptyWriter_fields [simp]:
  "wstatus emptyWriter = None"
  "wbody emptyWriter = []"
  "wheader emptyWriter = []"
  by (simp_all add: emptyWriter_def)

text \<open>
  A handler of no parameter, requested as \<^verbatim>\<open>/Dashboard\<close> without a cookie: the answer is
  the redirect 307, not 500, and nothing is logged. The checks on the session come before
  the check of the parameter count.
\<close>

theorem arity_error_not_always_500_counterexample:
  "NumIn noParamMethod \<noteq> 1 \<and> NumIn noParamMethod \<noteq> 2
   \<and> (\<exists>h. handleRequest demoFmt (Some noParamMethod) ''Dashboard'' False emptyWriter dashboardRequest emptyState
              = Some h
          \<and> wstatus (rw h) = Some 307 \<and> wstatus (rw h) \<noteq> Some 500 \<and> logs h = [])"
  by (simp add: handleRequest_def startSession_first noParamMethod_def redirectLogin_def
                WriteHeader_def HeaderSet_def)

lemma arity_never_called:
  assumes "NumIn m \<noteq> 1" and "NumIn m \<noteq> 2"
    and "handleRequest fmt (Some m) request hasAuth emptyWriter r st = Some h"
  shows "calls h = [] \<and> wstatus (rw h) \<noteq> Some 404 \<and> (wstatus (rw h) = Some 500 \<or> wstatus (rw h) = Some 307)"
proof -
  from assms(3) obtain s b err w1 st1 where ss: "startSession emptyWriter r st = Some ((s, b, err), w1, st1)"
    by (auto simp: handleRequest_def split: option.splits prod.splits)
  have w1: "wstatus w1 = None"
    using startSession_status[OF ss] by (simp add: emptyWriter_def)
  show ?thesis
    using assms ss w1
    by (auto simp: handleRequest_def WriteHeader_def redirectLogin_def HeaderSet_def
             split: option.splits if_splits)
qed

lemma arity_error_500:
  assumes "NumIn m \<noteq> 1" and "NumIn m \<noteq> 2"
    and ss: "startSession emptyWriter r st = Some ((Some p, b, None), w1, st1)"
    and "\<not> (sessionCookie r = None \<and> request \<noteq> ''Login'')"
    and "\<not> (hasAuth \<and> User p st1 = [])"
  shows "\<exists>h. handleRequest fmt (Some m) request hasAuth emptyWriter r st = Some h
           \<and> wstatus (rw h) = Some 500
           \<and> logs h = [Logf ERROR ''handler for %s has %d parameters\<newline>''
                         [AStr (RequestURI r), ANat (NumIn m)]]
           \<and> calls h = []"
proof -
  have w1: "wstatus w1 = None"
    using startSession_status[OF ss] by (simp add: emptyWriter_def)
  have b: "b = (sessionCookie r = None)"
    by (rule startSession_new_flag[OF ss])
  show ?thesis
    using assms w1 b
    by (auto simp: handleRequest_def WriteHeader_def)
qed

text \<open>
  C6, amended. A handler whose parameter count is neither 1 nor 2 is never called and the
  answer is never 404: it is 500 or the redirect 307. When the session is resolved and
  neither redirect applies, the dispatcher logs the parameter count and answers 500.
\<close>

theorem arity_error:
  assumes "NumIn m \<noteq> 1" and "NumIn m \<noteq> 2"
  shows "(\<forall>h. handleRequest fmt (Some m) request hasAuth emptyWriter r st = Some h
             \<longrightarrow> calls h = [] \<and> wstatus (rw h) \<noteq> Some 404
                 \<and> (wstatus (rw h) = Some 500 \<or> wstatus (rw h) = Some 307))
       \<and> (startSession emptyWriter r st = Some ((Some p, b, None), w1, st1)
            \<and> \<not> (sessionCookie r = None \<and> request \<noteq> ''Login'')
            \<and> \<not> (hasAuth \<and> User p st1 = [])
          \<longrightarrow> (\<exists>h. handleRequest fmt (Some m) request hasAuth emptyWriter r st = Some h
                 \<and> wstatus (rw h) = Some 500
                 \<and> logs h = [Logf ERROR ''handler for %s has %d parameters\<newline>''
                               [AStr (RequestURI r), ANat (NumIn m)]]
                 \<and> calls h = []))"
  using arity_never_called [OF assms, of fmt request hasAuth r st]
        arity_error_500 [OF assms, of r st p b w1 st1 request hasAuth fmt]
  by blast

lemma startSession_login:
  "startSession emptyWriter loginRequest emptyState
     = Some ((Some 0, True, None), SetCookie (GetCookie 0 firstState) emptyWriter, firstState)"
  by (simp add: startSession_def loginRequest_def newSession_def emptyState_def firstState_def
                drawId.simps Let_def)

theorem arity_error_witness:
  "NumIn noParamMethod \<noteq> 1 \<and> NumIn noParamMethod \<noteq> 2
   \<and> startSession emptyWriter loginRequest emptyState
       = Some ((Some 0, True, None), SetCookie (GetCookie 0 firstState) emptyWriter, firstState)
   \<and> \<not> (sessionCookie loginRequest = None \<and> ''Login'' \<noteq> ''Login'')
   \<and> \<not> (False \<and> User 0 firstState = [])
   \<and> (\<exists>h. handleRequest demoFmt (Some noParamMethod) ''Login'' False emptyWriter loginRequest emptyState = Some h
          \<and> wstatus (rw h) = Some 500
          \<and> logs h = [Logf ERROR ''handler for %s has %d parameters\<newline>'' [AStr ''/Login'', ANat 0]]
          \<and> calls h = [])"
proof -
  have a: "NumIn noParamMethod \<noteq> 1" "NumIn noParamMethod \<noteq> 2"
    by (simp_all add: noParamMethod_def)
  note t = arity_error [OF a, of demoFmt "''Login''" False loginRequest emptyState
                          0 True "SetCookie (GetCookie 0 firstState) emptyWriter" firstState]
  have u: "RequestURI loginRequest = ''/Login''" "NumIn noParamMethod = 0"
    by (simp_all add: loginRequest_def noParamMethod_def)
  from t a startSession_login u show ?thesis
    by auto
qed

section \<open>The result of the handler\<close>

text \<open>
  Whenever the handler is reached and its first result is no \<^verbatim>\<open>Response\<close>, the variable
  that is written is nil: the call panics, the panic is logged, and the writer is left as
  \<^verbatim>\<open>startSession\<close> left it.
\<close>

lemma raw_result_panics:
  assumes "startSession w r st = Some ((Some p, b, None), w1, st1)"
    and "\<not> (b \<and> request \<noteq> ''Login'')" and "\<not> (hasAuth \<and> User p st1 = [])"
    and "NumIn m = 1" and "F m [ArgSession p] st1 = (HReturn (Raw v # rest) None, st2)"
  shows "handleRequest fmt (Some m) request hasAuth w r st
           = Some \<lparr>rw = w1, after = st2,
                   logs = [Logf ERROR ''%v'' [AStr ''invalid memory address or nil pointer dereference'']],
                   calls = [[ArgSession p]]\<rparr>"
  using assms by (simp add: handleRequest_def)

text \<open>
  C1 fails on the code. A first request for \<^verbatim>\<open>/Login\<close> whose handler returns the string
  \<^verbatim>\<open>hello\<close>: the handler is called, no status and no body are written, and the panic is
  logged. The envelope with the \<^verbatim>\<open>data\<close> field is built and dropped.
\<close>

theorem raw_result_not_wrapped:
  "\<exists>h. handleRequest demoFmt (Some helloMethod) ''Login'' False emptyWriter loginRequest emptyState = Some h
      \<and> calls h = [[ArgSession 0]]
      \<and> wbody (rw h) = [] \<and> wstatus (rw h) = None
      \<and> logs h = [Logf ERROR ''%v'' [AStr ''invalid memory address or nil pointer dereference'']]"
  by (simp add: handleRequest_def startSession_login helloMethod_def)

section \<open>Restoring from a file that does not decode\<close>

text \<open>
  C7 fails on the code in its second half. With the empty path \<^verbatim>\<open>RestoreSessions\<close>
  returns nil and leaves the state as it is. With a file that is no JSON, the decoder
  returns an error, but \<^verbatim>\<open>RestoreSessions\<close> drops it and returns nil, so \<^verbatim>\<open>Run\<close> logs
  nothing; the store stays empty.
\<close>

theorem restore_drops_decode_error:
  "(\<forall>parse st. RestoreSessions parse [] st = (Returned None, st))
   \<and> snd (Decode (Garbage ''not json'')) = Some (Error ''invalid character'')
   \<and> RestoreSessions demoParse ''sessions.json'' garbageState = (Returned None, garbageState)
   \<and> Run demoParse ''sessions.json'' garbageState = (Returned [], garbageState)
   \<and> activeSessions garbageState = []"
  by (simp add: RestoreSessions_def Run_def garbageState_def emptyState_def appendError_def)

section \<open>Resolution\<close>

lemma loop_keeps_auth:
  "snd (snd (getHandler_loop c uri True)) = True"
  by (induction c uri True rule: getHandler_loop.induct)
     (auto simp: getHandler_loop.simps split: prod.splits option.splits)

lemma loop_step_auth:
  assumes "1 < StackCount uri" and "Pop uri = (name, uri1)" and "GetPropertyAuth c name = Some ca"
  shows "getHandler_loop (Some c) uri hasAuth = getHandler_loop (Some ca) uri1 True"
  using assms by (simp add: getHandler_loop.simps)

lemma loop_step_plain:
  assumes "1 < StackCount uri" and "Pop uri = (name, uri1)" and "GetPropertyAuth c name = None"
  shows "getHandler_loop (Some c) uri hasAuth = getHandler_loop (GetProperty c name) uri1 hasAuth"
  using assms by (simp add: getHandler_loop.simps)

text \<open>
  C5. At a popped segment, the auth-gated sub-controller of that name, when there is one,
  is the one descended into, whether or not a plain one of that name exists, and
  \<^verbatim>\<open>hasAuth\<close> is true when the loop ends; the plain sub-controller is looked up only when
  there is no auth-gated one.
\<close>

theorem auth_gated_first:
  assumes "1 < StackCount uri" and "Pop uri = (name, uri1)"
  shows "(\<forall>ca. GetPropertyAuth c name = Some ca \<longrightarrow>
            getHandler_loop (Some c) uri hasAuth = getHandler_loop (Some ca) uri1 True
            \<and> snd (snd (getHandler_loop (Some c) uri hasAuth)))
       \<and> (GetPropertyAuth c name = None \<longrightarrow>
            getHandler_loop (Some c) uri hasAuth = getHandler_loop (GetProperty c name) uri1 hasAuth)"
  using loop_step_auth [OF assms, of c _ hasAuth] loop_step_plain [OF assms, of c hasAuth]
        loop_keeps_auth
  by metis

theorem auth_gated_first_witness:
  "1 < StackCount (InitURI ''/Account/Profile'')
   \<and> Pop (InitURI ''/Account/Profile'') = (''Account'', \<lparr>path = ''/Account/Profile'', stack = [''Profile'']\<rparr>)
   \<and> GetPropertyAuth bothRoot ''Account'' = Some (Controller [] [] [(''Profile'', gatedMethod)])
   \<and> GetProperty bothRoot ''Account'' = Some (Controller [] [] [(''Profile'', plainMethod)])
   \<and> getHandler_loop (Some bothRoot) (InitURI ''/Account/Profile'') False
       = (Some (Controller [] [] [(''Profile'', gatedMethod)]),
          \<lparr>path = ''/Account/Profile'', stack = [''Profile'']\<rparr>, True)"
proof -
  have a: "1 < StackCount (InitURI ''/Account/Profile'')"
    by (simp add: StackCount_def InitURI_def segments_def)
  have b: "Pop (InitURI ''/Account/Profile'') = (''Account'', \<lparr>path = ''/Account/Profile'', stack = [''Profile'']\<rparr>)"
    by (simp add: Pop_def InitURI_def segments_def)
  have g: "GetPropertyAuth bothRoot ''Account'' = Some (Controller [] [] [(''Profile'', gatedMethod)])"
    by (simp add: GetPropertyAuth_def bothRoot_def)
  have p: "GetProperty bothRoot ''Account'' = Some (Controller [] [] [(''Profile'', plainMethod)])"
    by (simp add: GetProperty_def bothRoot_def)
  have e: "getHandler_loop (Some (Controller [] [] [(''Profile'', gatedMethod)]))
             \<lparr>path = ''/Account/Profile'', stack = [''Profile'']\<rparr> True
           = (Some (Controller [] [] [(''Profile'', gatedMethod)]),
              \<lparr>path = ''/Account/Profile'', stack = [''Profile'']\<rparr>, True)"
    by (simp add: StackCount_def getHandler_loop.simps)
  from auth_gated_first [OF a b, of bothRoot False] a b g p e show ?thesis
    by simp
qed

section \<open>The static fallback\<close>

lemma candidates_Nil: "candidates root [] = [root]"
  by (simp add: candidates_def nested_def)

lemma rev_upt_Suc_Suc: "rev [0..<Suc (Suc n)] = map Suc (rev [0..<Suc n]) @ [0]"
proof -
  have "[0..<Suc (Suc n)] = 0 # map Suc [0..<Suc n]"
    by (simp only: map_Suc_upt) (simp add: upt_conv_Cons del: upt_Suc)
  then show ?thesis
    by (simp only: rev.simps rev_map)
qed

lemma candidates_Cons: "candidates root (s # segs) = candidates (root @ ''/'' @ s) segs @ [root]"
proof -
  have "candidates root (s # segs)
          = map (\<lambda>k. nested root (take k (s # segs))) (map Suc (rev [0..<Suc (length segs)]) @ [0])"
    unfolding candidates_def length_Cons rev_upt_Suc_Suc ..
  also have "\<dots> = candidates (root @ ''/'' @ s) segs @ [root]"
    unfolding candidates_def by (simp add: nested_def comp_def del: upt_Suc)
  finally show ?thesis .
qed

lemma firstServed_append:
  "firstServed st (ps @ qs) = (case firstServed st ps of Some f \<Rightarrow> Some f | None \<Rightarrow> firstServed st qs)"
  by (induction ps) (auto split: option.splits)

lemma handleFile_nil:
  "handleFile st p None w =
     (case served st p of Some f \<Rightarrow> (None, ServeFile f w) | None \<Rightarrow> (Some ErrNotExist, w))"
proof (induction st p arbitrary: w rule: served.induct)
  case (1 st p)
  show ?case
  proof (cases "Stat st p")
    case None
    then show ?thesis
      by (simp add: handleFile.simps[of st p None] served.simps[of st p] ErrNotExist_def)
  next
    case (Some isDir)
    then show ?thesis
      using 1[of isDir]
      by (simp add: handleFile.simps[of st p None] served.simps[of st p] ErrNotExist_def)
  qed
qed

lemma handleFile_stack:
  "[] \<notin> set (stack u) \<Longrightarrow>
   handleFile st p (Some u) w =
     (case firstServed st (candidates p (stack u)) of
        Some f \<Rightarrow> (None, ServeFile f w)
      | None \<Rightarrow> (Some ErrNotExist, w))"
proof (induction "stack u" arbitrary: u p)
  case Nil
  have "handleFile st p (Some u) w = handleFile st p None w"
    using Nil(1)[symmetric]
    by (simp add: handleFile.simps[of st p "Some u"] handleFile.simps[of st p None] Pop_def)
  then show ?case
    using Nil(1)[symmetric] by (simp add: handleFile_nil candidates_Nil split: option.splits)
next
  case (Cons x xs)
  let ?u1 = "u\<lparr>stack := xs\<rparr>"
  have x: "x \<noteq> []" and xs: "[] \<notin> set xs"
    using Cons.prems Cons.hyps(2)[symmetric] by auto
  have pop: "Pop u = (x, ?u1)"
    using Cons.hyps(2)[symmetric] by (simp add: Pop_def)
  have ih: "handleFile st (p @ ''/'' @ x) (Some ?u1) w =
              (case firstServed st (candidates (p @ ''/'' @ x) xs) of
                 Some f \<Rightarrow> (None, ServeFile f w)
               | None \<Rightarrow> (Some ErrNotExist, w))"
    using Cons.hyps(1)[of ?u1 "p @ ''/'' @ x"] xs by simp
  have nil: "handleFile st p None w =
     (case Stat st p of
        None \<Rightarrow> (Some ErrNotExist, w)
      | Some isDir \<Rightarrow> (if isDir then handleFile st (p @ ''/'' @ ''index.html'') None w
                       else (None, ServeFile p w)))"
    by (simp add: handleFile.simps[of st p None] ErrNotExist_def)
  show ?case
  proof (cases "firstServed st (candidates (p @ ''/'' @ x) xs)")
    case None
    then have "handleFile st p (Some u) w = handleFile st p None w"
      using ih pop x nil
      by (simp add: handleFile.simps[of st p "Some u"] ErrNotExist_def)
    then show ?thesis
      using None Cons.hyps(2)[symmetric]
      by (simp add: handleFile_nil candidates_Cons firstServed_append split: option.splits)
  next
    case (Some f)
    then have "handleFile st p (Some u) w = (None, ServeFile f w)"
      using ih pop x
      by (simp add: handleFile.simps[of st p "Some u"])
    then show ?thesis
      using Some Cons.hyps(2)[symmetric]
      by (simp add: candidates_Cons firstServed_append)
  qed
qed

lemma splitSlash_nonempty: "splitSlash s \<noteq> []"
  by (induction s) (auto split: list.splits)

lemma segments_nonempty: "[] \<notin> set (segments raw)"
  by (simp add: segments_def)

lemma handleDist_static:
  "handleDist dist uri w r st =
     \<lparr>rw = staticFallback st dist (segments (path uri)) w, after = st,
      logs = (case firstServed st (candidates dist (segments (path uri))) of
                Some f \<Rightarrow> []
              | None \<Rightarrow> [Logf INFO (''not found `%s`'' @ path uri) []]),
      calls = []\<rparr>"
  using handleFile_stack[of "ResetStack uri" st dist w]
  by (simp add: handleDist_def ResetStack_def staticFallback_def segments_nonempty
           split: option.splits)

lemma Pop_path: "Pop u = (x, u1) \<Longrightarrow> path u1 = path u"
  by (auto simp: Pop_def split: list.splits)

lemma loop_path: "path (fst (snd (getHandler_loop c uri h))) = path uri"
proof (induction c uri h rule: getHandler_loop.induct)
  case (1 uri hasAuth)
  then show ?case by (simp add: getHandler_loop.simps)
next
  case (2 c uri hasAuth)
  show ?case
  proof (cases "1 < StackCount uri")
    case False
    then show ?thesis by (simp add: getHandler_loop.simps)
  next
    case True
    obtain name uri1 where p: "Pop uri = (name, uri1)" by (cases "Pop uri")
    have pu: "path uri1 = path uri" using Pop_path[OF p] .
    show ?thesis
      using True p pu 2[OF True p[symmetric]]
      by (auto simp: getHandler_loop.simps split: option.splits)
  qed
qed

lemma resolve_path: "path (snd (snd (snd (resolve c uri)))) = path uri"
  using loop_path[of c uri False]
  by (auto simp: resolve_def split: prod.splits option.splits dest: Pop_path)

lemma candidates_ends:
  "hd (candidates root segs) = nested root segs \<and> last (candidates root segs) = root"
proof (induction segs arbitrary: root)
  case Nil
  then show ?case by (simp add: candidates_Nil nested_def)
next
  case (Cons s segs)
  have "candidates (root @ ''/'' @ s) segs \<noteq> []"
    by (simp add: candidates_def)
  then show ?case
    using Cons[of "root @ ''/'' @ s"] by (simp add: candidates_Cons nested_def)
qed

lemma NotFound_status: "wstatus w = None \<Longrightarrow> wstatus (NotFound w) = Some 404"
  by (simp add: NotFound_def Write_def WriteHeader_def HeaderSet_def Let_def)

text \<open>
  C10. When no handler resolves, the closure answers with the static fallback as
  specified, over the segments of the request URI: the full nested path is the first
  path tried and the root the last, a directory stands for its \<^verbatim>\<open>index.html\<close>, and when
  every tried path misses the status is 404. No handler is called and the state is
  unchanged.
\<close>

theorem static_fallback:
  assumes "fst (snd (resolve controller (InitURI (RequestURI r)))) = None"
  shows "\<exists>h. getHandler fmt controller dist w r st = Some h
           \<and> rw h = staticFallback st dist (segments (RequestURI r)) w
           \<and> calls h = [] \<and> after h = st
           \<and> hd (candidates dist (segments (RequestURI r))) = nested dist (segments (RequestURI r))
           \<and> last (candidates dist (segments (RequestURI r))) = dist
           \<and> (firstServed st (candidates dist (segments (RequestURI r))) = None \<and> wstatus w = None
                \<longrightarrow> wstatus (rw h) = Some 404)"
proof -
  obtain request f hasAuth uri2 where res: "resolve controller (InitURI (RequestURI r)) = (request, f, hasAuth, uri2)"
    by (cases "resolve controller (InitURI (RequestURI r))") auto
  have f: "f = None" using assms res by simp
  have "path uri2 = RequestURI r"
    using resolve_path[of controller "InitURI (RequestURI r)"] res by (simp add: InitURI_def)
  then show ?thesis
    using res f candidates_ends[of dist "segments (RequestURI r)"]
    by (simp add: getHandler_def handleDist_static staticFallback_def NotFound_status)
qed


lemma segments_logo: "segments ''/assets/img/logo.png'' = [''assets'', ''img'', ''logo.png'']"
  by (simp add: segments_def)

lemma resolve_logo: "fst (snd (resolve (Some bothRoot) (InitURI (RequestURI logoRequest)))) = None"
  by (simp add: resolve_def logoRequest_def InitURI_def segments_logo getHandler_loop.simps
                StackCount_def Pop_def GetPropertyAuth_def GetProperty_def bothRoot_def)

lemma fallback_logo:
  "staticFallback distState ''dist'' [''assets'', ''img'', ''logo.png''] emptyWriter
     = ServeFile ''dist/assets/index.html'' emptyWriter"
  by (simp add: staticFallback_def candidates_Cons candidates_Nil served.simps Stat_def distState_def)

theorem static_fallback_witness:
  "fst (snd (resolve (Some bothRoot) (InitURI (RequestURI logoRequest)))) = None
   \<and> (\<exists>h. getHandler demoFmt (Some bothRoot) ''dist'' emptyWriter logoRequest distState = Some h
          \<and> rw h = ServeFile ''dist/assets/index.html'' emptyWriter
          \<and> calls h = [] \<and> after h = distState)"
  using static_fallback [OF resolve_logo, of demoFmt "''dist''" emptyWriter distState]
        resolve_logo fallback_logo segments_logo
  by (auto simp add: logoRequest_def)

section \<open>The invariant of the store\<close>

lemma storeInv_set:
  "storeInv st =
     (distinct (map fst (activeSessions st))
      \<and> (\<forall>k p. (k, p) \<in> set (activeSessions st) \<longrightarrow> p < length (heap st) \<and> sid (heap st ! p) = k))"
  by (force simp: storeInv_def list_all_iff)

lemma storeInv_heap_update:
  assumes "storeInv st" and "activeSessions st1 = activeSessions st"
    and "heap st1 = (heap st)[s := x]" and "sid x = sid (heap st ! s)"
  shows "storeInv st1"
proof -
  have "p < length (heap st1) \<and> sid (heap st1 ! p) = k"
    if "(k, p) \<in> set (activeSessions st1)" for k p
  proof -
    have a: "p < length (heap st)" "sid (heap st ! p) = k"
      using assms(1,2) that by (auto simp: storeInv_set)
    show ?thesis using a assms(3,4) by (cases "s = p") auto
  qed
  moreover have "distinct (map fst (activeSessions st1))"
    using assms(1,2) by (simp add: storeInv_set)
  ultimately show ?thesis
    unfolding storeInv_set by blast
qed

lemma update_entries:
  "(k1, p1) \<in> set (AList.update k v al) \<Longrightarrow> (k1 = k \<and> p1 = v) \<or> (k1, p1) \<in> set al"
  by (induction al) (auto split: if_splits)

lemma storeInv_alloc:
  assumes "storeInv st" and "activeSessions st1 = AList.update (sid x) (length (heap st)) (activeSessions st)"
    and "heap st1 = heap st @ [x]"
  shows "storeInv st1"
proof -
  have "p < length (heap st1) \<and> sid (heap st1 ! p) = k"
    if "(k, p) \<in> set (activeSessions st1)" for k p
  proof -
    from that have "(k, p) \<in> set (AList.update (sid x) (length (heap st)) (activeSessions st))"
      by (simp add: assms(2))
    from update_entries[OF this]
    consider "k = sid x" "p = length (heap st)" | "(k, p) \<in> set (activeSessions st)"
      by blast
    then show ?thesis
    proof cases
      case 1
      then show ?thesis by (simp add: assms(3))
    next
      case 2
      then have "p < length (heap st)" "sid (heap st ! p) = k"
        using assms(1) by (auto simp: storeInv_set)
      then show ?thesis by (simp add: assms(3) nth_append)
    qed
  qed
  moreover have "distinct (map fst (activeSessions st1))"
    using assms(1,2) by (simp add: storeInv_set distinct_update)
  ultimately show ?thesis
    unfolding storeInv_set by blast
qed

lemma storeInv_same:
  "storeInv st \<Longrightarrow> activeSessions st1 = activeSessions st \<Longrightarrow> heap st1 = heap st \<Longrightarrow> storeInv st1"
  by (simp add: storeInv_def)

lemma newSession_effect:
  assumes "newSession i st = Some (res, st1)"
  shows "(activeSessions st1 = activeSessions st \<and> heap st1 = heap st)
       \<or> (\<exists>p. activeSessions st1 = activeSessions st
              \<and> heap st1 = (heap st)[p := (heap st ! p)\<lparr>lastOp := clock st\<rparr>])
       \<or> (\<exists>j. activeSessions st1 = AList.update j (length (heap st)) (activeSessions st)
              \<and> heap st1 = heap st @ [\<lparr>sid = j, userName = [], lastOp = clock st, data = []\<rparr>])"
proof -
  obtain j err k where d: "(if i = [] then drawId (activeSessions st) (rand st) (rpos st)
                           else Some (i, None, rpos st)) = Some (j, err, k)"
    using assms by (auto simp: newSession_def split: option.splits)
  show ?thesis
  proof (cases err)
    case (Some e)
    then have "activeSessions st1 = activeSessions st \<and> heap st1 = heap st"
      using assms d by (auto simp: newSession_def)
    then show ?thesis by blast
  next
    case None
    show ?thesis
    proof (cases "map_of (activeSessions st) j")
      case (Some p)
      then have "activeSessions st1 = activeSessions st
                 \<and> heap st1 = (heap st)[p := (heap st ! p)\<lparr>lastOp := clock st\<rparr>]"
        using assms d None by (auto simp: newSession_def)
      then show ?thesis by blast
    next
      case n: None
      then have "activeSessions st1 = AList.update j (length (heap st)) (activeSessions st)
                 \<and> heap st1 = heap st @ [\<lparr>sid = j, userName = [], lastOp = clock st, data = []\<rparr>]"
        using assms d None by (auto simp: newSession_def)
      then show ?thesis by blast
    qed
  qed
qed

lemma storeInv_newSession:
  assumes "storeInv st" and "newSession i st = Some (res, st1)"
  shows "storeInv st1"
proof -
  from newSession_effect[OF assms(2)] consider
      (a) "activeSessions st1 = activeSessions st" "heap st1 = heap st"
    | (b) p where "activeSessions st1 = activeSessions st"
                  "heap st1 = (heap st)[p := (heap st ! p)\<lparr>lastOp := clock st\<rparr>]"
    | (c) j where "activeSessions st1 = AList.update j (length (heap st)) (activeSessions st)"
                  "heap st1 = heap st @ [\<lparr>sid = j, userName = [], lastOp = clock st, data = []\<rparr>]"
    by blast
  then show ?thesis
  proof cases
    case a
    then show ?thesis using assms(1) by (rule storeInv_same[rotated])
  next
    case b
    show ?thesis
      by (rule storeInv_heap_update[OF assms(1) b]) simp
  next
    case c
    show ?thesis
      by (rule storeInv_alloc[OF assms(1) _ c(2)]) (simp add: c(1))
  qed
qed

lemma keys_update: "set (map fst al) \<subseteq> set (map fst (AList.update k v al))"
  by (induction al) auto

lemma keys_delete: "set (map fst (AList.delete k al)) \<subseteq> set (map fst al)"
  by (induction al) auto

lemma ids_newSession:
  assumes "newSession i st = Some (res, st1)"
  shows "ids st \<subseteq> ids st1"
  using newSession_effect[OF assms] keys_update
  unfolding ids_def by (metis subset_refl)

lemma restoreLoop_inv:
  "storeInv st \<Longrightarrow> restoreLoop parse m st = (Returned u, st1) \<Longrightarrow> storeInv st1 \<and> ids st \<subseteq> ids st1"
proof (induction m arbitrary: st)
  case Nil
  then show ?case by simp
next
  case (Cons kv m)
  from Cons.prems(2) obtain sx where e: "restoreEntry parse (snd kv) = Some sx"
    by (auto split: option.splits)
  let ?st2 = "st\<lparr>heap := heap st @ [sx],
                   activeSessions := AList.update (sid sx) (length (heap st)) (activeSessions st)\<rparr>"
  have "storeInv ?st2" by (rule storeInv_alloc[OF Cons.prems(1)]) simp_all
  moreover have "restoreLoop parse m ?st2 = (Returned u, st1)"
    using Cons.prems(2) e by simp
  ultimately have "storeInv st1 \<and> ids ?st2 \<subseteq> ids st1"
    by (rule Cons.IH)
  moreover have "ids st \<subseteq> ids ?st2"
    using keys_update[of "activeSessions st" "sid sx" "length (heap st)"]
    unfolding ids_def by simp
  ultimately show ?case by blast
qed

lemma storeInv_restore:
  assumes "storeInv st" and "RestoreSessions parse p st = (Returned e, st1)"
  shows "storeInv st1 \<and> ids st \<subseteq> ids st1"
  using assms restoreLoop_inv[of st parse _ _ st1]
  by (auto simp: RestoreSessions_def split: if_splits option.splits prod.splits outcome.splits)

lemma storeInv_files: "storeInv (st\<lparr>files := f\<rparr>) = storeInv st"
  by (simp add: storeInv_def)

lemma dump_store:
  "SessionDump fmt p st = (e, st1) \<Longrightarrow> activeSessions st1 = activeSessions st \<and> heap st1 = heap st"
  by (auto simp: SessionDump_def Let_def split: if_splits option.splits)

lemma set_delete_entries: "(k1, p1) \<in> set (AList.delete k al) \<Longrightarrow> (k1, p1) \<in> set al"
  by (induction al) (auto split: if_splits)

lemma storeInv_run:
  assumes "storeInv st" and "run fmt parse op st = Some st1"
  shows "storeInv st1"
proof (cases op)
  case (ResolveOrCreate i)
  then obtain res where "newSession i st = Some (res, st1)"
    using assms(2) by auto
  then show ?thesis by (rule storeInv_newSession[OF assms(1)])
next
  case (OpGet s key)
  then have "st1 = snd (Get s key st)"
    using assms(2) by (simp split: if_splits)
  then have "activeSessions st1 = activeSessions st"
    "heap st1 = (heap st)[s := (heap st ! s)\<lparr>lastOp := clock st\<rparr>]"
    by (simp_all add: Get_def Let_def)
  then show ?thesis
    by (rule storeInv_heap_update[OF assms(1)]) simp
next
  case (OpSet s key v)
  then have "st1 = Set s key v st"
    using assms(2) by (simp split: if_splits)
  then have "activeSessions st1 = activeSessions st"
    "heap st1 = (heap st)[s := (heap st ! s)\<lparr>lastOp := clock st,
                                              data := AList.update key v (data (heap st ! s))\<rparr>]"
    by (simp_all add: Set_def)
  then show ?thesis
    by (rule storeInv_heap_update[OF assms(1)]) simp
next
  case (OpSetUser s usr)
  then have "st1 = SetUser s usr st"
    using assms(2) by (simp split: if_splits)
  then have "activeSessions st1 = activeSessions st"
    "heap st1 = (heap st)[s := (heap st ! s)\<lparr>userName := usr\<rparr>]"
    by (simp_all add: SetUser_def)
  then show ?thesis
    by (rule storeInv_heap_update[OF assms(1)]) simp
next
  case (OpDelete s)
  then have st1: "activeSessions st1 = AList.delete (sid (heap st ! s)) (activeSessions st)"
    "heap st1 = heap st"
    using assms(2) by (auto simp: Delete_def split: if_splits)
  have "p < length (heap st1) \<and> sid (heap st1 ! p) = k"
    if "(k, p) \<in> set (activeSessions st1)" for k p
    using that set_delete_entries[of k p "sid (heap st ! s)" "activeSessions st"] assms(1) st1
    by (auto simp: storeInv_set)
  moreover have "distinct (map fst (activeSessions st1))"
    using assms(1) st1 by (simp add: storeInv_set distinct_delete)
  ultimately show ?thesis
    unfolding storeInv_set by blast
next
  case (OpDump p)
  then show ?thesis
    using assms dump_store[of fmt p st "fst (SessionDump fmt p st)" st1] storeInv_same[of st st1]
    by auto
next
  case (OpRestore p)
  then obtain e where "RestoreSessions parse p st = (Returned e, st1)"
    using assms(2) by (auto split: prod.splits outcome.splits)
  then show ?thesis using storeInv_restore[OF assms(1)] by blast
next
  case (OpTick t)
  then show ?thesis using assms by (auto simp: storeInv_def)
next
  case (OpWriteFile p c)
  then show ?thesis using assms by (auto simp: storeInv_def)
qed

lemma reachable_storeInv: "reachable st \<Longrightarrow> storeInv st"
proof (induction rule: reachable.induct)
  case (start st)
  then show ?case by (simp add: storeInv_def)
next
  case (step st fmt parse op st1)
  then show ?case using storeInv_run by blast
qed

lemma storeInv_ids_distinct:
  assumes "storeInv st"
  shows "distinct (map (\<lambda>kp. sid (heap st ! snd kp)) (activeSessions st))"
proof -
  have "map (\<lambda>kp. sid (heap st ! snd kp)) (activeSessions st) = map fst (activeSessions st)"
    using assms by (auto simp: storeInv_def list_all_iff)
  then show ?thesis using assms by (metis storeInv_def)
qed

lemma run_ids:
  assumes "storeInv st" and "run fmt parse op st = Some st1"
  shows "(ids st \<subseteq> ids st1 \<or> (\<exists>s. op = OpDelete s))
       \<and> (ids st1 \<subseteq> ids st \<or> (\<exists>i. op = ResolveOrCreate i) \<or> (\<exists>p. op = OpRestore p))"
proof (cases op)
  case (ResolveOrCreate i)
  then obtain res where "newSession i st = Some (res, st1)"
    using assms(2) by auto
  then show ?thesis using ids_newSession ResolveOrCreate by blast
next
  case (OpGet s key)
  then show ?thesis using assms(2) by (auto simp: Get_def Let_def ids_def split: if_splits)
next
  case (OpSet s key v)
  then show ?thesis using assms(2) by (auto simp: Set_def ids_def split: if_splits)
next
  case (OpSetUser s usr)
  then show ?thesis using assms(2) by (auto simp: SetUser_def ids_def split: if_splits)
next
  case (OpDelete s)
  then have "activeSessions st1 = AList.delete (sid (heap st ! s)) (activeSessions st)"
    using assms(2) by (auto simp: Delete_def split: if_splits)
  then have "ids st1 \<subseteq> ids st"
    using keys_delete[of "sid (heap st ! s)" "activeSessions st"]
    unfolding ids_def by simp
  then show ?thesis using OpDelete by blast
next
  case (OpDump p)
  then show ?thesis
    using assms(2) dump_store[of fmt p st "fst (SessionDump fmt p st)" st1]
    by (auto simp: ids_def)
next
  case (OpRestore p)
  then obtain e where "RestoreSessions parse p st = (Returned e, st1)"
    using assms(2) by (auto split: prod.splits outcome.splits)
  then have "ids st \<subseteq> ids st1"
    using storeInv_restore[OF assms(1)] by blast
  then show ?thesis using OpRestore by blast
next
  case (OpTick t)
  then show ?thesis using assms(2) by (auto simp: ids_def)
next
  case (OpWriteFile p c)
  then show ?thesis using assms(2) by (auto simp: ids_def)
qed

text \<open>
  C8, amended. In every reachable state the keys of the store are distinct, every entry
  is keyed by the id of its session, and so no two entries hold sessions of the same id.
  An operation that returns adds an id only if it is a resolution-or-create or a restore,
  and removes an id only if it is a deletion.
\<close>

theorem store_invariant:
  assumes "reachable st"
  shows "storeInv st
       \<and> distinct (map (\<lambda>kp. sid (heap st ! snd kp)) (activeSessions st))
       \<and> (\<forall>fmt parse op st1. run fmt parse op st = Some st1 \<longrightarrow>
            (ids st \<subseteq> ids st1 \<or> (\<exists>s. op = OpDelete s))
          \<and> (ids st1 \<subseteq> ids st \<or> (\<exists>i. op = ResolveOrCreate i) \<or> (\<exists>p. op = OpRestore p)))"
  using reachable_storeInv[OF assms] storeInv_ids_distinct run_ids
  by blast


lemma run_restore_dumped:
  "run demoFmt demoParse (OpRestore ''sessions.json'') dumpedState
     = Some (dumpedState\<lparr>heap := [\<lparr>sid = ''abc'', userName = ''ann'',
                                     lastOp = \<lparr>nanos = 1700000000000000000, mono = None\<rparr>, data = []\<rparr>],
                          activeSessions := [(''abc'', 0)]\<rparr>)"
  by (simp add: RestoreSessions_def dumpedState_def emptyState_def lastWins_def restoreEntry_def
                demoParse_def appendError_def)

text \<open>
  Restoring a dump file into the empty store adds the id \<^verbatim>\<open>abc\<close>, and the operation is no
  resolution-or-create: entries also enter the store by \<^verbatim>\<open>RestoreSessions\<close>.
\<close>

theorem entries_enter_by_restore_counterexample:
  "reachable dumpedState \<and> ids dumpedState = {}
   \<and> (\<exists>st1. run demoFmt demoParse (OpRestore ''sessions.json'') dumpedState = Some st1
             \<and> ids st1 = {''abc''})
   \<and> \<not> (\<forall>st fmt parse op st1.
            reachable st \<and> run fmt parse op st = Some st1 \<and> \<not> ids st1 \<subseteq> ids st
            \<longrightarrow> (\<exists>i. op = ResolveOrCreate i))"
proof -
  have r: "reachable dumpedState"
    by (rule reachable.start) (simp_all add: dumpedState_def emptyState_def)
  have e: "ids dumpedState = {}"
    by (simp add: ids_def dumpedState_def emptyState_def)
  let ?st1 = "dumpedState\<lparr>heap := [\<lparr>sid = ''abc'', userName = ''ann'',
                                     lastOp = \<lparr>nanos = 1700000000000000000, mono = None\<rparr>, data = []\<rparr>],
                          activeSessions := [(''abc'', 0)]\<rparr>"
  have i: "ids ?st1 = {''abc''}"
    by (simp add: ids_def)
  have n: "\<not> ids ?st1 \<subseteq> ids dumpedState"
    using e i by simp
  have "\<not> (\<forall>st fmt parse op st1.
            reachable st \<and> run fmt parse op st = Some st1 \<and> \<not> ids st1 \<subseteq> ids st
            \<longrightarrow> (\<exists>i. op = ResolveOrCreate i))"
  proof
    assume "\<forall>st fmt parse op st1.
            reachable st \<and> run fmt parse op st = Some st1 \<and> \<not> ids st1 \<subseteq> ids st
            \<longrightarrow> (\<exists>i. op = ResolveOrCreate i)"
    then have "\<exists>i. OpRestore ''sessions.json'' = ResolveOrCreate i"
      using r run_restore_dumped n by blast
    then show False by simp
  qed
  then show ?thesis
    using r e i run_restore_dumped by blast
qed

lemma run_create:
  "run demoFmt demoParse (ResolveOrCreate ''abc'') emptyState = Some createdState"
  by (simp add: newSession_def emptyState_def createdState_def Let_def)

theorem store_invariant_witness:
  "reachable createdState
   \<and> storeInv createdState
   \<and> activeSessions createdState = [(''abc'', 0)]
   \<and> sid (heap createdState ! 0) = ''abc''
   \<and> (\<exists>st1. run demoFmt demoParse (OpDelete 0) createdState = Some st1 \<and> ids st1 \<subseteq> ids createdState)"
proof -
  have "reachable emptyState"
    by (rule reachable.start) (simp_all add: emptyState_def)
  then have r: "reachable createdState"
    using run_create by (rule reachable.step)
  have d: "run demoFmt demoParse (OpDelete 0) createdState = Some (Delete 0 createdState)"
    by (simp add: createdState_def emptyState_def)
  have k: "ids (Delete 0 createdState) \<subseteq> ids createdState"
    by (simp add: ids_def Delete_def createdState_def emptyState_def)
  from store_invariant [OF r] r d k show ?thesis
    by (simp add: createdState_def emptyState_def)
qed

end
